theory Spec2Isabelle
  imports Main "HOL-Library.FSet" "HOL-Library.Sublist" "HOL-Library.Word"
begin

section \<open>JavaScript values used by the compiler\<close>

text \<open>
  The compiler is the TypeScript module \<^verbatim>\<open>iconFontCompiler.ts\<close>. Strings are
  modelled as \<^typ>\<open>string\<close> (code units below 256). A value that reaches a parameter
  of type \<^verbatim>\<open>number\<close> is \<^verbatim>\<open>undefined\<close>, \<^verbatim>\<open>NaN\<close> or an integer;
  integers are mathematical integers, which is what a double computes for every
  integer of magnitude below \<open>2^53\<close>, in particular for every code point. Fractional
  numbers and infinities are not values of this type; \<^verbatim>\<open>getUniqueUnicode\<close>, the one
  function that counts upwards without a bound, is given a second time on doubles
  (type \<open>double\<close>), with the rounding of \<^verbatim>\<open>++\<close> written out.
\<close>

datatype number = Undefined | NaN | Num int

text \<open>The decimal digits of a non-negative integer, as \<^verbatim>\<open>"" + i\<close> prints them.\<close>

definition digitChar :: "nat \<Rightarrow> char" where
  "digitChar d = char_of (48 + d)"

fun numberToString :: "nat \<Rightarrow> string" where
  "numberToString n =
     (if n < 10 then [digitChar n] else numberToString (n div 10) @ [digitChar (n mod 10)])"

declare numberToString.simps [simp del]

lemma digitChar_inj: "a < 10 \<Longrightarrow> b < 10 \<Longrightarrow> digitChar a = digitChar b \<Longrightarrow> a = b"
  by (simp add: digitChar_def char_of_eq_iff take_bit_eq_mod)

lemma numberToString_nonempty: "numberToString n \<noteq> []"
  by (subst numberToString.simps) simp

lemma numberToString_inj: "numberToString m = numberToString n \<Longrightarrow> m = n"
proof (induction m arbitrary: n rule: numberToString.induct)
  case (1 m)
  show ?case
  proof (cases "m < 10")
    case True
    note m = this
    show ?thesis
    proof (cases "n < 10")
      case True
      with m "1.prems" show ?thesis
        by (simp add: numberToString.simps[of m] numberToString.simps[of n] digitChar_inj)
    next
      case False
      with m "1.prems" numberToString_nonempty[of "n div 10"] show ?thesis
        by (simp add: numberToString.simps[of m] numberToString.simps[of n])
    qed
  next
    case False
    note m = this
    show ?thesis
    proof (cases "n < 10")
      case True
      with m "1.prems" numberToString_nonempty[of "m div 10"] show ?thesis
        by (simp add: numberToString.simps[of m] numberToString.simps[of n])
    next
      case False
      with m "1.prems" have e: "numberToString (m div 10) = numberToString (n div 10)"
        and d: "digitChar (m mod 10) = digitChar (n mod 10)"
        by (simp_all add: numberToString.simps[of m] numberToString.simps[of n])
      from "1.IH"[OF m e] have "m div 10 = n div 10" .
      moreover from d have "m mod 10 = n mod 10" by (simp add: digitChar_inj)
      ultimately show ?thesis by (metis div_mult_mod_eq)
    qed
  qed
qed

lemma digitChar_simps:
  "digitChar 0 = CHR ''0''" "digitChar 1 = CHR ''1''" "digitChar 2 = CHR ''2''"
  "digitChar 3 = CHR ''3''" "digitChar 4 = CHR ''4''" "digitChar 5 = CHR ''5''"
  "digitChar 6 = CHR ''6''" "digitChar 7 = CHR ''7''" "digitChar 8 = CHR ''8''"
  "digitChar 9 = CHR ''9''" "digitChar (Suc 0) = CHR ''1''"
  by code_simp+

lemma numberToString_numeral:
  "numberToString (numeral k) =
     (if (numeral k :: nat) < 10 then [digitChar (numeral k)]
      else numberToString (numeral k div 10) @ [digitChar (numeral k mod 10)])"
  by (rule numberToString.simps)

section \<open>The identifier registry\<close>

text \<open>
  A \<^verbatim>\<open>Set<string>\<close> or \<^verbatim>\<open>Set<number>\<close> is a finite set; only \<^verbatim>\<open>has\<close> and
  \<^verbatim>\<open>add\<close> are used on it. The functions mutate the set they are given: the model
  returns the new set beside the result.

  \<^verbatim>\<open>
  function getUnique(content: string, set: Set<string>) {
      if (set.has(content)) {
          for (let i = 2; ; i++) {
              const newContent = content + "-" + i
              if (!set.has(newContent)) { content = newContent; break }
          }
      }
      set.add(content)
      return content
  }
  \<close>
  The counter \<open>i\<close> is a natural number: the loop passes \<open>i\<close> only when the set holds
  \<open>i - 1\<close> probed strings, so it stays in the range where \<^verbatim>\<open>i++\<close> is exact and
  \<^verbatim>\<open>"" + i\<close> prints decimal digits.
\<close>

function getUnique_loop :: "string \<Rightarrow> string fset \<Rightarrow> nat \<Rightarrow> string" where
  "getUnique_loop content S i =
     (let newContent = content @ ''-'' @ numberToString i
      in if newContent |\<notin>| S then newContent else getUnique_loop content S (i + 1))"
  by pat_completeness auto

lemma probe_finite: "finite {j. i \<le> j \<and> content @ ''-'' @ numberToString j |\<in>| S}"
proof -
  have "inj (\<lambda>j. content @ ''-'' @ numberToString j)"
    by (rule injI) (simp add: numberToString_inj)
  then have "finite ((\<lambda>j. content @ ''-'' @ numberToString j) -` fset S)"
    by (intro finite_vimageI) simp_all
  then show ?thesis
    by (rule rev_finite_subset) auto
qed

termination getUnique_loop
proof (relation "measure (\<lambda>(content, S, i).
    card {j. i \<le> j \<and> content @ ''-'' @ numberToString j |\<in>| S})", goal_cases)
  case 1
  show ?case by simp
next
  case (2 content S i newContent)
  then have "i \<in> {j. i \<le> j \<and> content @ ''-'' @ numberToString j |\<in>| S}"
    and "i \<notin> {j. i + 1 \<le> j \<and> content @ ''-'' @ numberToString j |\<in>| S}"
    by simp_all
  moreover have "{j. i + 1 \<le> j \<and> content @ ''-'' @ numberToString j |\<in>| S}
      \<subseteq> {j. i \<le> j \<and> content @ ''-'' @ numberToString j |\<in>| S}"
    by auto
  ultimately have "{j. i + 1 \<le> j \<and> content @ ''-'' @ numberToString j |\<in>| S}
      \<subset> {j. i \<le> j \<and> content @ ''-'' @ numberToString j |\<in>| S}"
    by blast
  then show ?case
    using probe_finite[of i content S] by (simp add: psubset_card_mono)
qed

declare getUnique_loop.simps [simp del]

definition getUnique :: "string \<Rightarrow> string fset \<Rightarrow> string \<times> string fset" where
  "getUnique content S =
     (let content = (if content |\<in>| S then getUnique_loop content S 2 else content)
      in (content, finsert content S))"

text \<open>
  \<^verbatim>\<open>
  function getUniqueUnicode(startUnicode: number, set: Set<number>) {
      if (isNaN(startUnicode)) startUnicode = 0xea01
      if (set.has(startUnicode)) {
          while (set.has(startUnicode)) { startUnicode++ }
      }
      set.add(startUnicode)
      return startUnicode
  }
  \<close>
  \<^verbatim>\<open>isNaN\<close> converts its argument with \<^verbatim>\<open>Number\<close> first, so it holds of
  \<^verbatim>\<open>undefined\<close> as well as of \<^verbatim>\<open>NaN\<close>.
\<close>

function getUniqueUnicode_loop :: "int \<Rightarrow> int fset \<Rightarrow> int" where
  "getUniqueUnicode_loop startUnicode S =
     (if startUnicode |\<in>| S then getUniqueUnicode_loop (startUnicode + 1) S else startUnicode)"
  by pat_completeness auto

termination getUniqueUnicode_loop
proof (relation "measure (\<lambda>(startUnicode, S). card {k. startUnicode \<le> k \<and> k |\<in>| S})",
    goal_cases)
  case 1
  show ?case by simp
next
  case (2 startUnicode S)
  have fin: "finite {k. startUnicode \<le> k \<and> k |\<in>| S}"
    by (rule rev_finite_subset[of "fset S"]) auto
  from 2 have "startUnicode \<in> {k. startUnicode \<le> k \<and> k |\<in>| S}"
    and "startUnicode \<notin> {k. startUnicode + 1 \<le> k \<and> k |\<in>| S}"
    by simp_all
  moreover have "{k. startUnicode + 1 \<le> k \<and> k |\<in>| S} \<subseteq> {k. startUnicode \<le> k \<and> k |\<in>| S}"
    by auto
  ultimately have "{k. startUnicode + 1 \<le> k \<and> k |\<in>| S} \<subset> {k. startUnicode \<le> k \<and> k |\<in>| S}"
    by blast
  then show ?case
    using fin by (simp add: psubset_card_mono)
qed

declare getUniqueUnicode_loop.simps [simp del]

definition getUniqueUnicode :: "number \<Rightarrow> int fset \<Rightarrow> int \<times> int fset" where
  "getUniqueUnicode startUnicode S =
     (let startUnicode = (case startUnicode of Num n \<Rightarrow> n | _ \<Rightarrow> 0xea01);
          startUnicode =
            (if startUnicode |\<in>| S then getUniqueUnicode_loop startUnicode S else startUnicode)
      in (startUnicode, finsert startUnicode S))"

subsection \<open>The unicode registry on doubles\<close>

text \<open>
  The two definitions above compute with integers, where \<^verbatim>\<open>startUnicode++\<close> always
  advances. In the program \<^verbatim>\<open>startUnicode\<close> is a double, and \<^verbatim>\<open>++\<close> rounds the
  sum to the nearest double, a tie going to the even significand. The definitions of
  this subsection are \<^verbatim>\<open>getUniqueUnicode\<close> with that arithmetic.

  A value is \<^verbatim>\<open>undefined\<close>, \<^verbatim>\<open>NaN\<close>, an infinity, or a finite double \<open>DNum x\<close>,
  where the rational \<open>x\<close> is \<open>m * 2^e\<close> for integers \<open>\<bar>m\<bar> < 2^53\<close> and
  \<open>-1074 \<le> e \<le> 971\<close>; the two zeros are one value, as they are for \<^verbatim>\<open>Set.has\<close>.
  \<open>bitLength n\<close> is the number of binary digits of \<open>n\<close>, \<open>round53 n\<close> the natural
  number \<open>n\<close> rounded to 53 significant binary digits, and \<open>roundDouble y\<close> the double
  nearest to \<open>y\<close>, for \<open>y\<close> the sum of a finite double and one: such a sum is a multiple
  of \<open>2^-1074\<close> and at most one above the largest double, so that it neither underflows
  nor overflows and only its significand is rounded.
\<close>

function bitLength :: "int \<Rightarrow> nat" where
  "bitLength n = (if n \<le> 0 then 0 else Suc (bitLength (n div 2)))"
  by pat_completeness auto

termination bitLength
  by (relation "measure nat") auto

declare bitLength.simps [simp del]

definition round53 :: "int \<Rightarrow> int" where
  "round53 n =
     (let s = bitLength n - 53; q = n div 2 ^ s; r = n mod 2 ^ s
      in (if 2 ^ s < 2 * r \<or> (2 * r = 2 ^ s \<and> odd q) then q + 1 else q) * 2 ^ s)"

definition roundDouble :: "rat \<Rightarrow> rat" where
  "roundDouble y =
     (case quotient_of y of (a, b) \<Rightarrow> of_int (sgn a * round53 \<bar>a\<bar>) / of_int b)"

datatype double = DUndefined | DNaN | DNum rat | DInfinity | DNegInfinity

text \<open>
  \<open>isNaN\<close> is the global \<^verbatim>\<open>isNaN\<close> and \<open>increment\<close> the new value of \<^verbatim>\<open>x\<close> after
  \<^verbatim>\<open>x++\<close>. The loop need not end, so it is a partial function: \<open>None\<close> is a call that
  never returns.
\<close>

fun isNaN :: "double \<Rightarrow> bool" where
  "isNaN DUndefined = True"
| "isNaN DNaN = True"
| "isNaN (DNum x) = False"
| "isNaN DInfinity = False"
| "isNaN DNegInfinity = False"

fun increment :: "double \<Rightarrow> double" where
  "increment DUndefined = DNaN"
| "increment DNaN = DNaN"
| "increment (DNum x) = DNum (roundDouble (x + 1))"
| "increment DInfinity = DInfinity"
| "increment DNegInfinity = DNegInfinity"

partial_function (option) getUniqueUnicode_double_loop :: "double \<Rightarrow> double fset \<Rightarrow> double option" where
  "getUniqueUnicode_double_loop startUnicode S =
     (if startUnicode |\<in>| S then getUniqueUnicode_double_loop (increment startUnicode) S
      else Some startUnicode)"

definition getUniqueUnicode_double :: "double \<Rightarrow> double fset \<Rightarrow> (double \<times> double fset) option" where
  "getUniqueUnicode_double startUnicode S =
     (let startUnicode = (if isNaN startUnicode then DNum 0xea01 else startUnicode)
      in case (if startUnicode |\<in>| S then getUniqueUnicode_double_loop startUnicode S
               else Some startUnicode) of
           None \<Rightarrow> None
         | Some startUnicode \<Rightarrow> Some (startUnicode, finsert startUnicode S))"

text \<open>The double that holds a value of the integer model.\<close>

fun toDouble :: "number \<Rightarrow> double" where
  "toDouble Undefined = DUndefined"
| "toDouble NaN = DNaN"
| "toDouble (Num n) = DNum (of_int n)"

section \<open>Data model\<close>

text \<open>
  A node of the parsed document is what \<^verbatim>\<open>xmldoc\<close> returns: a name, a dictionary of
  attributes and a list of children, each optional as in the interface \<^verbatim>\<open>SVGNode\<close>.
  An icon is either such a node or a \<^verbatim>\<open>String\<close> object, extended in place with the
  optional fields of the interface \<^verbatim>\<open>SVGIcon\<close>; the model keeps the fields in a record
  and the extended value in \<open>body\<close>. An absent field or dictionary key is \<open>None\<close>.

  \<open>CompileIconFontResult\<close> is the aggregate of one compile run. Its field \<open>generated\<close>
  is not a field of the source: it lists, in order, the generator calls made on the
  result, so that the number of times an artifact is generated can be stated.

  The collaborators outside the repository are the fields of \<open>env\<close>: the path helpers
  and the file system of \<^verbatim>\<open>tutils\<close>, the XML parser and serialiser, \<^verbatim>\<open>parseFloat\<close>
  and the division of its result by 100 (fractions are not modelled), and the font
  codecs. A call that can throw returns \<open>error + 'a\<close>. \<^verbatim>\<open>generateHTML\<close> is kept as a
  parameter too: its template holds characters beyond the modelled code units, and no
  property below reads the preview's text.
\<close>


datatype SVGNode =
  SVGNode (name: "string option") (attr: "(string \<rightharpoonup> string) option")
    (children: "SVGNode list option")

definition attrOf :: "SVGNode \<Rightarrow> string \<Rightarrow> string option" where
  "attrOf node key = (case attr node of None \<Rightarrow> None | Some a \<Rightarrow> a key)"

datatype iconBody = Markup SVGNode | Text string

record SVGIcon =
  iconName :: "string option"
  unicode :: "int option"
  autoUnicode :: "bool option"
  className :: "string option"
  title :: "string option"
  body :: iconBody

datatype format = SvgFont | Ttf | Eot | Woff | Woff2 | Js | Svg | Css | Html

type_synonym buffer = "8 word list"

record CompileIconFontResult =
  svgFont :: "string option"
  eot :: "buffer option"
  ttf :: "buffer option"
  woff :: "buffer option"
  woff2 :: "buffer option"
  js :: "string option"
  svg :: "string option"
  css :: "string option"
  html :: "string option"
  dependencies :: "string list"
  globDependencies :: "(string \<times> string) list"
  icons :: "SVGIcon list"
  iconNames :: "string fset"
  unicodes :: "int fset"
  classNames :: "string fset"
  startUnicode :: number
  generated :: "format list"

datatype callback = Noop | Callback nat

record ttfOptions =
  copyright :: "string option"
  description :: "string option"
  ts :: number
  url :: "string option"
  version :: "string option"

record IconFontOptions =
  fontName :: "string option"
  fontId :: "string option"
  fontStyle :: "string option"
  fontWeight :: "string option"
  fixedWidth :: "bool option"
  centerHorizontally :: "bool option"
  normalize :: "bool option"
  fontHeight :: number
  round :: number
  descent :: number
  ascent :: number
  metadata :: "string option"
  metadataProvider :: "callback option"
  log :: "callback option"
  startUnicodeOption :: number
  prependUnicode :: "bool option"
  classNamePrefix :: "string option"
  ttfOption :: "ttfOptions option"
  fileName :: "string option"
  hash :: "string option"

datatype error = IOError | XMLError | CodecError | RangeError | TypeError

record glyph =
  glyphContent :: string
  glyphName :: "string option"
  glyphUnicode :: int

record env =
  getName :: "string \<Rightarrow> string"
  getDir :: "string \<Rightarrow> string"
  resolvePath :: "string \<Rightarrow> string \<Rightarrow> string"
  isGlob :: "string \<Rightarrow> bool"
  glob :: "string \<Rightarrow> string \<Rightarrow> error + string list"
  readText :: "string \<Rightarrow> error + string"
  XmlDocument :: "string \<Rightarrow> error + SVGNode"
  nodeToString :: "SVGNode \<Rightarrow> string"
  parseFloat :: "string \<Rightarrow> number"
  divide100 :: "number \<Rightarrow> number"
  SVGIcons2SVGFontStream :: "IconFontOptions \<Rightarrow> glyph list \<Rightarrow> error + string"
  svg2ttf :: "string \<Rightarrow> ttfOptions option \<Rightarrow> error + buffer"
  ttf2eot :: "buffer \<Rightarrow> error + buffer"
  ttf2woff :: "buffer \<Rightarrow> IconFontOptions \<Rightarrow> error + buffer"
  wawoff2_compress :: "buffer \<Rightarrow> error + buffer"
  quoteJSString :: "string \<Rightarrow> string"
  generateHTML :: "SVGIcon list \<Rightarrow> IconFontOptions \<Rightarrow> error + string"


section \<open>Parsing attribute values\<close>

text \<open>
  \<^verbatim>\<open>
  function parseBoolean(value: string | undefined) {
      return value === undefined ? undefined : value !== "false"
  }
  function parseNumber(value: string | undefined) {
      if (value === undefined) return undefined
      if (value.startsWith("0x")) return parseInt(value.slice(2), 16)
      if (value.endsWith("%")) return parseFloat(value) / 100
      return parseFloat(value)
  }
  \<close>
  \<open>parseInt16\<close> is \<^verbatim>\<open>parseInt(s, 16)\<close>: leading white space, a sign, an optional
  \<^verbatim>\<open>0x\<close> and the longest run of hexadecimal digits; \<^verbatim>\<open>NaN\<close> when there is no digit.
  Its value is the integer the digits denote, which is the double \<^verbatim>\<open>parseInt\<close> returns
  as long as that integer is below \<open>2^53\<close>; a longer number \<^verbatim>\<open>parseInt\<close> rounds.
  \<open>codePointAt0\<close> is \<^verbatim>\<open>s.codePointAt(0)\<close>, \<^verbatim>\<open>undefined\<close> on the empty string.
\<close>


definition parseBoolean :: "string option \<Rightarrow> bool option" where
  "parseBoolean v = (case v of None \<Rightarrow> None | Some s \<Rightarrow> Some (s \<noteq> ''false''))"

definition isWhiteSpace :: "char \<Rightarrow> bool" where
  "isWhiteSpace c = ((of_char c :: nat) \<in> {9, 10, 11, 12, 13, 32, 160})"

definition isHexDigit :: "char \<Rightarrow> bool" where
  "isHexDigit c =
     (let n = (of_char c :: nat)
      in (48 \<le> n \<and> n \<le> 57) \<or> (97 \<le> n \<and> n \<le> 102) \<or> (65 \<le> n \<and> n \<le> 70))"

definition hexDigitValue :: "char \<Rightarrow> nat" where
  "hexDigitValue c =
     (let n = (of_char c :: nat)
      in if n \<le> 57 then n - 48 else if 97 \<le> n then n - 87 else n - 55)"

definition parseInt16 :: "string \<Rightarrow> number" where
  "parseInt16 s =
     (let s = dropWhile isWhiteSpace s;
          negative = (case s of [] \<Rightarrow> False | c # _ \<Rightarrow> c = CHR ''-'');
          s = (case s of [] \<Rightarrow> s
               | c # rest \<Rightarrow> if c = CHR ''+'' \<or> c = CHR ''-'' then rest else s);
          s = (if prefix ''0x'' s \<or> prefix ''0X'' s then drop 2 s else s);
          digits = takeWhile isHexDigit s
      in if digits = [] then NaN
         else let n = int (foldl (\<lambda>a c. 16 * a + hexDigitValue c) 0 digits)
              in Num (if negative then - n else n))"

definition parseNumber :: "env \<Rightarrow> string option \<Rightarrow> number" where
  "parseNumber env v =
     (case v of
        None \<Rightarrow> Undefined
      | Some s \<Rightarrow>
          if prefix ''0x'' s then parseInt16 (drop 2 s)
          else if suffix ''%'' s then divide100 env (parseFloat env s)
          else parseFloat env s)"

definition codePointAt0 :: "string \<Rightarrow> number" where
  "codePointAt0 s = (case s of [] \<Rightarrow> Undefined | c # _ \<Rightarrow> Num (of_char c))"

section \<open>The icon collector\<close>

text \<open>
  \<^verbatim>\<open>
  async function processNode(icon, path, result) {
      if (icon.name === "svg") {
          icon.iconName = getUnique(icon.attr?.id ?? getName(path, false), result.iconNames)
          icon.className = getUnique(icon.attr?.class ?? icon.iconName, result.classNames)
          if (icon.attr != undefined && icon.attr.unicode != undefined) {
              icon.unicode = getUniqueUnicode(icon.attr.unicode.startsWith("0x")
                  ? parseNumber(icon.attr.unicode) : icon.attr.unicode.codePointAt(0),
                  result.unicodes)
          } else {
              icon.unicode = result.startUnicode =
                  getUniqueUnicode(result.startUnicode, result.unicodes)
              icon.autoUnicode = true
          }
          icon.title = icon.attr?.title ?? icon.iconName
          result.icons.push(icon)
      }
  }
  \<close>
  The function has no \<^verbatim>\<open>await\<close>, so its body runs to the end at the call.
  \<open>processFile\<close> records the path, reads and parses the file and processes its root;
  \<open>processFiles\<close> is the loop over the matches of a glob, \<open>processChildren\<close> the loop
  of \<^verbatim>\<open>compileIconFont\<close> over the children of the manifest root.
\<close>


definition processNode ::
    "env \<Rightarrow> SVGNode \<Rightarrow> string \<Rightarrow> CompileIconFontResult \<Rightarrow> CompileIconFontResult" where
  "processNode env icon path result =
     (if name icon = Some ''svg'' then
        let (iconName', iconNames') =
              getUnique (case attrOf icon ''id'' of Some v \<Rightarrow> v | None \<Rightarrow> getName env path)
                (iconNames result);
            (className', classNames') =
              getUnique (case attrOf icon ''class'' of Some v \<Rightarrow> v | None \<Rightarrow> iconName')
                (classNames result);
            result = result\<lparr>iconNames := iconNames', classNames := classNames'\<rparr>;
            (unicode', autoUnicode', result) =
              (case attrOf icon ''unicode'' of
                 Some u \<Rightarrow>
                   let (unicode', unicodes') =
                         getUniqueUnicode
                           (if prefix ''0x'' u then parseNumber env (Some u) else codePointAt0 u)
                           (unicodes result)
                   in (unicode', None, result\<lparr>unicodes := unicodes'\<rparr>)
               | None \<Rightarrow>
                   let (unicode', unicodes') = getUniqueUnicode (startUnicode result) (unicodes result)
                   in (unicode', Some True,
                       result\<lparr>unicodes := unicodes', startUnicode := Num unicode'\<rparr>));
            title' = (case attrOf icon ''title'' of Some v \<Rightarrow> v | None \<Rightarrow> iconName')
        in result\<lparr>icons := icons result @
             [\<lparr>iconName = Some iconName', unicode = Some unicode', autoUnicode = autoUnicode',
               className = Some className', title = Some title', body = Markup icon\<rparr>]\<rparr>
      else result)"

definition processFile ::
    "env \<Rightarrow> string \<Rightarrow> CompileIconFontResult \<Rightarrow> error + CompileIconFontResult" where
  "processFile env path result =
     (let result = result\<lparr>dependencies := dependencies result @ [path]\<rparr>
      in case readText env path of
           Inl e \<Rightarrow> Inl e
         | Inr content \<Rightarrow>
             (case XmlDocument env content of
                Inl e \<Rightarrow> Inl e
              | Inr rootNode \<Rightarrow> Inr (processNode env rootNode path result)))"

fun processFiles ::
    "env \<Rightarrow> string list \<Rightarrow> CompileIconFontResult \<Rightarrow> error + CompileIconFontResult" where
  "processFiles env [] result = Inr result"
| "processFiles env (fullPath # rest) result =
     (case processFile env fullPath result of
        Inl e \<Rightarrow> Inl e
      | Inr result \<Rightarrow> processFiles env rest result)"

fun processChildren ::
    "env \<Rightarrow> string \<Rightarrow> SVGNode list \<Rightarrow> CompileIconFontResult \<Rightarrow> error + CompileIconFontResult" where
  "processChildren env path [] result = Inr result"
| "processChildren env path (childNode # rest) result =
     (if name childNode = Some ''svg'' then
        (case attrOf childNode ''src'' of
           None \<Rightarrow> processChildren env path rest (processNode env childNode path result)
         | Some src \<Rightarrow>
             if isGlob env src then
               let baseDir = getDir env path;
                   result = result\<lparr>globDependencies := globDependencies result @ [(src, baseDir)]\<rparr>
               in (case glob env src baseDir of
                     Inl e \<Rightarrow> Inl e
                   | Inr fullPaths \<Rightarrow>
                       (case processFiles env fullPaths result of
                          Inl e \<Rightarrow> Inl e
                        | Inr result \<Rightarrow> processChildren env path rest result))
             else
               (case processFile env (resolvePath env path src) result of
                  Inl e \<Rightarrow> Inl e
                | Inr result \<Rightarrow> processChildren env path rest result))
      else processChildren env path rest result)"


section \<open>The format orchestrator\<close>

text \<open>
  \<open>setFlags\<close> is the \<^verbatim>\<open>switch\<close> of \<^verbatim>\<open>generateIconFont\<close> over one requested format,
  \<open>requestedFlags\<close> its loop over the list. \<open>svgFontOptions\<close> is the first part of
  \<^verbatim>\<open>generateSVGFont\<close>, which fills in the defaults of the options object in place:
  \<^verbatim>\<open>
  options.fontHeight = options.fontHeight ?? 1024
  options.round = options.round ?? 10e12
  options.centerHorizontally = options.centerHorizontally ?? true
  options.normalize = options.normalize ?? true
  options.descent = options.descent ?? 150
  options.log = options.log ?? (() => { })
  if (!icons.length) options.normalize = true
  \<close>
  The glyph of an icon carries \<^verbatim>\<open>String.fromCodePoint(icon.unicode)\<close>, which throws a
  \<^verbatim>\<open>RangeError\<close> outside \<open>0 .. 0x10FFFF\<close>.
\<close>


record formatFlags =
  svgFontFlag :: bool
  eotFlag :: bool
  ttfFlag :: bool
  woffFlag :: bool
  woff2Flag :: bool
  jsFlag :: bool
  svgFlag :: bool
  cssFlag :: bool
  htmlFlag :: bool

definition noFlags :: formatFlags where
  "noFlags = \<lparr>svgFontFlag = False, eotFlag = False, ttfFlag = False, woffFlag = False,
     woff2Flag = False, jsFlag = False, svgFlag = False, cssFlag = False, htmlFlag = False\<rparr>"

fun setFlags :: "formatFlags \<Rightarrow> format \<Rightarrow> formatFlags" where
  "setFlags f SvgFont = f\<lparr>svgFontFlag := True\<rparr>"
| "setFlags f Ttf = f\<lparr>svgFontFlag := True, ttfFlag := True\<rparr>"
| "setFlags f Eot = f\<lparr>svgFontFlag := True, ttfFlag := True, eotFlag := True\<rparr>"
| "setFlags f Woff = f\<lparr>svgFontFlag := True, ttfFlag := True, woffFlag := True\<rparr>"
| "setFlags f Woff2 = f\<lparr>svgFontFlag := True, ttfFlag := True, woff2Flag := True\<rparr>"
| "setFlags f Js = f\<lparr>svgFlag := True, jsFlag := True\<rparr>"
| "setFlags f Svg = f\<lparr>svgFlag := True\<rparr>"
| "setFlags f Css = f\<lparr>cssFlag := True\<rparr>"
| "setFlags f Html = f\<lparr>htmlFlag := True\<rparr>"

definition requestedFlags :: "format list \<Rightarrow> formatFlags" where
  "requestedFlags formats = foldl setFlags noFlags formats"

definition nullish :: "number \<Rightarrow> number \<Rightarrow> number" where
  "nullish v d = (case v of Undefined \<Rightarrow> d | _ \<Rightarrow> v)"

definition svgFontOptions :: "SVGIcon list \<Rightarrow> IconFontOptions \<Rightarrow> IconFontOptions" where
  "svgFontOptions iconList options =
     (let options = options\<lparr>fontHeight := nullish (fontHeight options) (Num 1024)\<rparr>;
          options = options\<lparr>round := nullish (round options) (Num 10000000000000)\<rparr>;
          options = options\<lparr>centerHorizontally :=
            Some (case centerHorizontally options of None \<Rightarrow> True | Some b \<Rightarrow> b)\<rparr>;
          options = options\<lparr>normalize :=
            Some (case normalize options of None \<Rightarrow> True | Some b \<Rightarrow> b)\<rparr>;
          options = options\<lparr>descent := nullish (descent options) (Num 150)\<rparr>;
          options = options\<lparr>log := Some (case log options of None \<Rightarrow> Noop | Some l \<Rightarrow> l)\<rparr>
      in if length iconList = 0 then options\<lparr>normalize := Some True\<rparr> else options)"

definition iconToString :: "env \<Rightarrow> SVGIcon \<Rightarrow> string" where
  "iconToString env icon = (case body icon of Markup n \<Rightarrow> nodeToString env n | Text s \<Rightarrow> s)"

definition fromCodePoint :: "int option \<Rightarrow> error + int" where
  "fromCodePoint u =
     (case u of
        None \<Rightarrow> Inl RangeError
      | Some n \<Rightarrow> if 0 \<le> n \<and> n \<le> 0x10FFFF then Inr n else Inl RangeError)"

fun glyphStreams :: "env \<Rightarrow> SVGIcon list \<Rightarrow> error + glyph list" where
  "glyphStreams env [] = Inr []"
| "glyphStreams env (icon # rest) =
     (case fromCodePoint (unicode icon) of
        Inl e \<Rightarrow> Inl e
      | Inr u \<Rightarrow>
          (case glyphStreams env rest of
             Inl e \<Rightarrow> Inl e
           | Inr gs \<Rightarrow>
               Inr (\<lparr>glyphContent = iconToString env icon, glyphName = iconName icon,
                     glyphUnicode = u\<rparr> # gs)))"

definition generateSVGFont ::
    "env \<Rightarrow> SVGIcon list \<Rightarrow> IconFontOptions \<Rightarrow> error + (string \<times> IconFontOptions)" where
  "generateSVGFont env iconList options =
     (let options = svgFontOptions iconList options
      in case glyphStreams env iconList of
           Inl e \<Rightarrow> Inl e
         | Inr gs \<Rightarrow>
             (case SVGIcons2SVGFontStream env options gs of
                Inl e \<Rightarrow> Inl e
              | Inr content \<Rightarrow> Inr (content, options)))"

section \<open>The text generators\<close>

text \<open>
  \<^verbatim>\<open>generateSVGSprite\<close> turns every icon into a \<^verbatim>\<open>symbol\<close>; for a parsed node it
  works on an object that inherits from the icon, so the \<^verbatim>\<open>id\<close> it adds lands in the
  icon's own attributes, which the model returns. \<^verbatim>\<open>generateCSS\<close> is the template of
  the source, with \<open>cssHeader\<close> the part before the rules and \<open>cssRule\<close> the rule of one
  icon:
  \<^verbatim>\<open>
  .${classNamePrefix ? classNamePrefix + "-" : classNamePrefix}${icon.className}:before
      { content: "\\${icon.unicode.toString(16)}"; }
  \<close>
\<close>


definition symbolOf ::
    "env \<Rightarrow> SVGNode \<Rightarrow> string option \<Rightarrow> error + (string \<times> (string \<rightharpoonup> string))" where
  "symbolOf env node className' =
     (case attr node of
        None \<Rightarrow> Inl TypeError
      | Some a \<Rightarrow>
          let a = (if a ''id'' = None \<or> a ''id'' = Some [] then a(''id'' := className') else a)
          in Inr (nodeToString env (SVGNode (Some ''symbol'') (Some a) (children node)), a))"

definition spriteSymbol :: "env \<Rightarrow> SVGIcon \<Rightarrow> error + (string \<times> SVGIcon)" where
  "spriteSymbol env icon =
     (case (case body icon of Markup n \<Rightarrow> if children n \<noteq> None then Some n else None
                             | Text s \<Rightarrow> None) of
        Some n \<Rightarrow>
          (case symbolOf env n (className icon) of
             Inl e \<Rightarrow> Inl e
           | Inr (text, a) \<Rightarrow> Inr (text, icon\<lparr>body := Markup (SVGNode (name n) (Some a) (children n))\<rparr>))
      | None \<Rightarrow>
          (case XmlDocument env (iconToString env icon) of
             Inl e \<Rightarrow> Inl e
           | Inr node \<Rightarrow>
               (case symbolOf env node (className icon) of
                  Inl e \<Rightarrow> Inl e
                | Inr (text, a) \<Rightarrow> Inr (text, icon))))"

fun spriteSymbols :: "env \<Rightarrow> SVGIcon list \<Rightarrow> error + (string \<times> SVGIcon list)" where
  "spriteSymbols env [] = Inr ([], [])"
| "spriteSymbols env (icon # rest) =
     (case spriteSymbol env icon of
        Inl e \<Rightarrow> Inl e
      | Inr (text, icon) \<Rightarrow>
          (case spriteSymbols env rest of
             Inl e \<Rightarrow> Inl e
           | Inr (texts, iconList) \<Rightarrow> Inr ([CHR 0x0A] @ text @ texts, icon # iconList)))"

definition generateSVGSprite ::
    "env \<Rightarrow> SVGIcon list \<Rightarrow> IconFontOptions \<Rightarrow> error + (string \<times> SVGIcon list)" where
  \<open>generateSVGSprite env iconList options =
     (case spriteSymbols env iconList of
        Inl e \<Rightarrow> Inl e
      | Inr (texts, iconList) \<Rightarrow>
          Inr (''<svg style="position:absolute;width:0;height:0;overflow:hidden" aria-hidden="true">''
               @ texts @ [CHR 0x0A] @ ''</svg>'', iconList))\<close>

definition generateJS :: "env \<Rightarrow> string \<Rightarrow> IconFontOptions \<Rightarrow> string" where
  \<open>generateJS env svgText options =
     ''!function iconFontInjectSVG(){var b=document.body,d;if(b){d=document.createElement("div");d.innerHTML=''
     @ quoteJSString env svgText
     @ '';while(d.firstChild)b.insertBefore(d.firstChild,b.firstChild)}else setTimeout(iconFontInjectSVG,10)}();''\<close>

definition hexDigitChar :: "nat \<Rightarrow> char" where
  "hexDigitChar d = (if d < 10 then char_of (48 + d) else char_of (87 + d))"

fun toHex :: "nat \<Rightarrow> string" where
  "toHex n = (if n < 16 then [hexDigitChar n] else toHex (n div 16) @ [hexDigitChar (n mod 16)])"

declare toHex.simps [simp del]

definition toString16 :: "int \<Rightarrow> string" where
  "toString16 n = (if n < 0 then ''-'' @ toHex (nat (- n)) else toHex (nat n))"

fun join :: "string \<Rightarrow> string list \<Rightarrow> string" where
  "join sep [] = []"
| "join sep [x] = x"
| "join sep (x # y # rest) = x @ sep @ join sep (y # rest)"

definition cssRule :: "string \<Rightarrow> SVGIcon \<Rightarrow> error + string" where
  "cssRule classNamePrefix' icon =
     (case unicode icon of
        None \<Rightarrow> Inl TypeError
      | Some u \<Rightarrow>
          Inr (''.'' @ (if classNamePrefix' \<noteq> [] then classNamePrefix' @ ''-'' else classNamePrefix')
               @ (case className icon of Some c \<Rightarrow> c | None \<Rightarrow> ''undefined'')
               @ '':before { content: '' @ [CHR 0x22, CHR 0x5C] @ toString16 u @ [CHR 0x22] @ ''; }''))"

fun cssRules :: "string \<Rightarrow> SVGIcon list \<Rightarrow> error + string list" where
  "cssRules classNamePrefix' [] = Inr []"
| "cssRules classNamePrefix' (icon # rest) =
     (case cssRule classNamePrefix' icon of
        Inl e \<Rightarrow> Inl e
      | Inr rule \<Rightarrow>
          (case cssRules classNamePrefix' rest of
             Inl e \<Rightarrow> Inl e
           | Inr rules \<Rightarrow> Inr (rule # rules)))"

definition cssHeader :: "string \<Rightarrow> string \<Rightarrow> string \<Rightarrow> string" where
  "cssHeader classNamePrefix' baseName h =
     ''@font-face {'' @ [CHR 0x0A, CHR 0x09]
     @ ''font-family: '' @ [CHR 0x27] @ classNamePrefix' @ [CHR 0x27] @ '';'' @ [CHR 0x0A, CHR 0x09]
     @ ''src: url('' @ [CHR 0x27] @ baseName @ ''.eot?v='' @ h @ [CHR 0x27] @ ''); /* IE9 */''
     @ [CHR 0x0A, CHR 0x09]
     @ ''src: url('' @ [CHR 0x27] @ baseName @ ''.eot?#iefix&v='' @ h @ [CHR 0x27]
     @ '') format('' @ [CHR 0x27] @ ''embedded-opentype'' @ [CHR 0x27] @ '') /* IE6-IE8 */, url(''
     @ [CHR 0x27] @ baseName @ ''.woff2?v='' @ h @ [CHR 0x27]
     @ '') format('' @ [CHR 0x27] @ ''woff2'' @ [CHR 0x27] @ '') /* Chrome, Firefox */, url(''
     @ [CHR 0x27] @ baseName @ ''.woff?v='' @ h @ [CHR 0x27]
     @ '') format('' @ [CHR 0x27] @ ''woff'' @ [CHR 0x27] @ '') /* Chrome, Firefox */, url(''
     @ [CHR 0x27] @ baseName @ ''.ttf?v='' @ h @ [CHR 0x27]
     @ '') format('' @ [CHR 0x27] @ ''truetype'' @ [CHR 0x27]
     @ '') /* Chrome, Firefox, Opera, Safari, Android, iOS 4.2+ */, url(''
     @ [CHR 0x27] @ baseName @ ''.svg?v='' @ h @ ''#regular'' @ [CHR 0x27]
     @ '') format('' @ [CHR 0x27] @ ''svg'' @ [CHR 0x27] @ '') /* iOS 4.1- */;'' @ [CHR 0x0A, CHR 0x09]
     @ ''font-weight: normal;'' @ [CHR 0x0A, CHR 0x09]
     @ ''font-style: normal;'' @ [CHR 0x0A]
     @ ''}'' @ [CHR 0x0A]
     @ ''.'' @ classNamePrefix' @ '' {'' @ [CHR 0x0A, CHR 0x09]
     @ ''display: inline-block;'' @ [CHR 0x0A, CHR 0x09]
     @ ''font-family: '' @ [CHR 0x27] @ classNamePrefix' @ [CHR 0x27] @ '';'' @ [CHR 0x0A, CHR 0x09]
     @ ''font-size: inherit;'' @ [CHR 0x0A, CHR 0x09]
     @ ''font-weight: normal;'' @ [CHR 0x0A, CHR 0x09]
     @ ''font-style: normal;'' @ [CHR 0x0A, CHR 0x09]
     @ ''font-variant: normal;'' @ [CHR 0x0A, CHR 0x09]
     @ ''line-height: 1;'' @ [CHR 0x0A, CHR 0x09]
     @ ''text-decoration: none !important;'' @ [CHR 0x0A, CHR 0x09]
     @ ''text-rendering: auto;'' @ [CHR 0x0A, CHR 0x09]
     @ ''text-transform: none;'' @ [CHR 0x0A, CHR 0x09]
     @ ''-webkit-font-smoothing: antialiased;'' @ [CHR 0x0A, CHR 0x09]
     @ ''-moz-osx-font-smoothing: grayscale;'' @ [CHR 0x0A, CHR 0x09]
     @ ''user-select: none;'' @ [CHR 0x0A]
     @ ''}'' @ [CHR 0x0A]"

definition generateCSS :: "env \<Rightarrow> SVGIcon list \<Rightarrow> IconFontOptions \<Rightarrow> error + string" where
  "generateCSS env iconList options =
     (let baseName =
            getName env
              (case fileName options of
                 Some f \<Rightarrow> f
               | None \<Rightarrow> (case fontName options of Some f \<Rightarrow> f | None \<Rightarrow> ''icon''));
          classNamePrefix' = (case classNamePrefix options of Some p \<Rightarrow> p | None \<Rightarrow> baseName);
          h = (case hash options of Some h \<Rightarrow> h | None \<Rightarrow> numberToString (length iconList))
      in case cssRules classNamePrefix' iconList of
           Inl e \<Rightarrow> Inl e
         | Inr rules \<Rightarrow> Inr (cssHeader classNamePrefix' baseName h @ join [CHR 0x0A] rules))"


section \<open>Generating the requested formats\<close>

text \<open>
  \<^verbatim>\<open>generateIconFont\<close> runs the generators of the flags that are set, in a fixed
  order, each writing its field of the result. The options object is shared with
  \<^verbatim>\<open>generateSVGFont\<close>, which changes it, so it is threaded through the steps. A step
  that reads a field an earlier step must have written fails when the field is unset.
\<close>


type_synonym generation = "CompileIconFontResult \<times> IconFontOptions"

definition whenFlag ::
    "bool \<Rightarrow> (generation \<Rightarrow> error + generation) \<Rightarrow> error + generation \<Rightarrow> error + generation" where
  "whenFlag flag step state =
     (case state of Inl e \<Rightarrow> Inl e | Inr g \<Rightarrow> if flag then step g else Inr g)"

definition svgFontStep :: "env \<Rightarrow> generation \<Rightarrow> error + generation" where
  "svgFontStep env g =
     (case g of (result, options) \<Rightarrow>
        (case generateSVGFont env (icons result) options of
           Inl e \<Rightarrow> Inl e
         | Inr (content, options) \<Rightarrow>
             Inr (result\<lparr>svgFont := Some content, generated := generated result @ [SvgFont]\<rparr>,
                  options)))"

definition ttfStep :: "env \<Rightarrow> generation \<Rightarrow> error + generation" where
  "ttfStep env g =
     (case g of (result, options) \<Rightarrow>
        (case svgFont result of
           None \<Rightarrow> Inl TypeError
         | Some content \<Rightarrow>
             (case svg2ttf env content (ttfOption options) of
                Inl e \<Rightarrow> Inl e
              | Inr b \<Rightarrow>
                  Inr (result\<lparr>ttf := Some b, generated := generated result @ [Ttf]\<rparr>, options))))"

definition eotStep :: "env \<Rightarrow> generation \<Rightarrow> error + generation" where
  "eotStep env g =
     (case g of (result, options) \<Rightarrow>
        (case ttf result of
           None \<Rightarrow> Inl TypeError
         | Some t \<Rightarrow>
             (case ttf2eot env t of
                Inl e \<Rightarrow> Inl e
              | Inr b \<Rightarrow>
                  Inr (result\<lparr>eot := Some b, generated := generated result @ [Eot]\<rparr>, options))))"

definition woffStep :: "env \<Rightarrow> generation \<Rightarrow> error + generation" where
  "woffStep env g =
     (case g of (result, options) \<Rightarrow>
        (case ttf result of
           None \<Rightarrow> Inl TypeError
         | Some t \<Rightarrow>
             (case ttf2woff env t options of
                Inl e \<Rightarrow> Inl e
              | Inr b \<Rightarrow>
                  Inr (result\<lparr>woff := Some b, generated := generated result @ [Woff]\<rparr>, options))))"

definition woff2Step :: "env \<Rightarrow> generation \<Rightarrow> error + generation" where
  "woff2Step env g =
     (case g of (result, options) \<Rightarrow>
        (case ttf result of
           None \<Rightarrow> Inl TypeError
         | Some t \<Rightarrow>
             (case wawoff2_compress env t of
                Inl e \<Rightarrow> Inl e
              | Inr b \<Rightarrow>
                  Inr (result\<lparr>woff2 := Some b, generated := generated result @ [Woff2]\<rparr>, options))))"

definition svgStep :: "env \<Rightarrow> generation \<Rightarrow> error + generation" where
  "svgStep env g =
     (case g of (result, options) \<Rightarrow>
        (case generateSVGSprite env (icons result) options of
           Inl e \<Rightarrow> Inl e
         | Inr (sprite, iconList) \<Rightarrow>
             Inr (result\<lparr>svg := Some sprite, icons := iconList,
                    generated := generated result @ [Svg]\<rparr>, options)))"

definition jsStep :: "env \<Rightarrow> generation \<Rightarrow> error + generation" where
  "jsStep env g =
     (case g of (result, options) \<Rightarrow>
        (case svg result of
           None \<Rightarrow> Inl TypeError
         | Some sprite \<Rightarrow>
             Inr (result\<lparr>js := Some (generateJS env sprite options),
                    generated := generated result @ [Js]\<rparr>, options)))"

definition cssStep :: "env \<Rightarrow> generation \<Rightarrow> error + generation" where
  "cssStep env g =
     (case g of (result, options) \<Rightarrow>
        (case generateCSS env (icons result) options of
           Inl e \<Rightarrow> Inl e
         | Inr sheet \<Rightarrow>
             Inr (result\<lparr>css := Some sheet, generated := generated result @ [Css]\<rparr>, options)))"

definition htmlStep :: "env \<Rightarrow> generation \<Rightarrow> error + generation" where
  "htmlStep env g =
     (case g of (result, options) \<Rightarrow>
        (case generateHTML env (icons result) options of
           Inl e \<Rightarrow> Inl e
         | Inr page \<Rightarrow>
             Inr (result\<lparr>html := Some page, generated := generated result @ [Html]\<rparr>, options)))"

definition generateIconFont ::
    "env \<Rightarrow> CompileIconFontResult \<Rightarrow> format list \<Rightarrow> IconFontOptions
      \<Rightarrow> error + CompileIconFontResult" where
  "generateIconFont env result formats options =
     (let f = requestedFlags formats;
          g = Inr (result, options);
          g = whenFlag (svgFontFlag f) (svgFontStep env) g;
          g = whenFlag (ttfFlag f) (ttfStep env) g;
          g = whenFlag (eotFlag f) (eotStep env) g;
          g = whenFlag (woffFlag f) (woffStep env) g;
          g = whenFlag (woff2Flag f) (woff2Step env) g;
          g = whenFlag (svgFlag f) (svgStep env) g;
          g = whenFlag (jsFlag f) (jsStep env) g;
          g = whenFlag (cssFlag f) (cssStep env) g;
          g = whenFlag (htmlFlag f) (htmlStep env) g
      in case g of Inl e \<Rightarrow> Inl e | Inr (result, options) \<Rightarrow> Inr result)"

section \<open>The entry points\<close>

text \<open>
  An omitted \<^verbatim>\<open>formats\<close> or \<^verbatim>\<open>options\<close> argument is \<open>None\<close>. \<open>spread\<close> is the object
  spread \<^verbatim>\<open>{ ...base, ...over }\<close>: a key of \<open>over\<close> that is present wins. An options
  object is modelled by the values of its keys, so a key that \<open>over\<close> carries with the
  value \<^verbatim>\<open>undefined\<close> counts as absent.
  \<open>manifestOptions\<close> is the options object \<^verbatim>\<open>compileIconFont\<close> builds from the root
  attributes, and \<open>collectManifest\<close> its collecting part. In
  \<^verbatim>\<open>compileIconFontFromSources\<close> the icon of a source object is a fresh
  \<^verbatim>\<open>new String(...)\<close>, whose \<^verbatim>\<open>iconName\<close>, \<^verbatim>\<open>className\<close> and \<^verbatim>\<open>unicode\<close> are
  still unset when the code reads them.
\<close>


definition defaultFormats :: "format list" where
  "defaultFormats = [Eot, Ttf, Woff, Woff2, Css, Html]"

definition newResult :: "number \<Rightarrow> CompileIconFontResult" where
  "newResult start =
     \<lparr>svgFont = None, eot = None, ttf = None, woff = None, woff2 = None, js = None, svg = None,
      css = None, html = None, dependencies = [], globDependencies = [], icons = [],
      iconNames = {||}, unicodes = {||}, classNames = {||}, startUnicode = start,
      generated = []\<rparr>"

definition noOptions :: IconFontOptions where
  "noOptions =
     \<lparr>fontName = None, fontId = None, fontStyle = None, fontWeight = None, fixedWidth = None,
      centerHorizontally = None, normalize = None, fontHeight = Undefined, round = Undefined,
      descent = Undefined, ascent = Undefined, metadata = None, metadataProvider = None,
      log = None, startUnicodeOption = Undefined, prependUnicode = None, classNamePrefix = None,
      ttfOption = None, fileName = None, hash = None\<rparr>"

definition orElse :: "'a option \<Rightarrow> 'a option \<Rightarrow> 'a option" where
  "orElse v d = (case v of None \<Rightarrow> d | Some x \<Rightarrow> Some x)"

definition spread :: "IconFontOptions \<Rightarrow> IconFontOptions \<Rightarrow> IconFontOptions" where
  "spread base over =
     \<lparr>fontName = orElse (fontName over) (fontName base),
      fontId = orElse (fontId over) (fontId base),
      fontStyle = orElse (fontStyle over) (fontStyle base),
      fontWeight = orElse (fontWeight over) (fontWeight base),
      fixedWidth = orElse (fixedWidth over) (fixedWidth base),
      centerHorizontally = orElse (centerHorizontally over) (centerHorizontally base),
      normalize = orElse (normalize over) (normalize base),
      fontHeight = nullish (fontHeight over) (fontHeight base),
      round = nullish (round over) (round base),
      descent = nullish (descent over) (descent base),
      ascent = nullish (ascent over) (ascent base),
      metadata = orElse (metadata over) (metadata base),
      metadataProvider = orElse (metadataProvider over) (metadataProvider base),
      log = orElse (log over) (log base),
      startUnicodeOption = nullish (startUnicodeOption over) (startUnicodeOption base),
      prependUnicode = orElse (prependUnicode over) (prependUnicode base),
      classNamePrefix = orElse (classNamePrefix over) (classNamePrefix base),
      ttfOption = orElse (ttfOption over) (ttfOption base),
      fileName = orElse (fileName over) (fileName base),
      hash = orElse (hash over) (hash base)\<rparr>"

definition manifestOptions ::
    "env \<Rightarrow> (string \<rightharpoonup> string) \<Rightarrow> string \<Rightarrow> CompileIconFontResult
      \<Rightarrow> IconFontOptions option \<Rightarrow> IconFontOptions" where
  "manifestOptions env attrs path result options =
     spread
       \<lparr>fontName = Some (case attrs ''fontName'' of Some v \<Rightarrow> v | None \<Rightarrow> getName env path),
        fontId = attrs ''fontId'',
        fontStyle = attrs ''fontStyle'',
        fontWeight = attrs ''fontWeight'',
        fixedWidth = parseBoolean (attrs ''fixedWidth''),
        centerHorizontally = parseBoolean (attrs ''centerHorizontally''),
        normalize = parseBoolean (attrs ''normalize''),
        fontHeight = parseNumber env (attrs ''fontHeight''),
        round = parseNumber env (attrs ''foroundntHeight''),
        descent = parseNumber env (attrs ''descent''),
        ascent = parseNumber env (attrs ''ascent''),
        metadata = attrs ''metadata'',
        metadataProvider = None,
        log = None,
        startUnicodeOption = startUnicode result,
        prependUnicode = None,
        classNamePrefix = attrs ''classNamePrefix'',
        ttfOption = None,
        fileName = Some path,
        hash = None\<rparr>
       (case options of None \<Rightarrow> noOptions | Some over \<Rightarrow> over)"

definition collectManifest ::
    "env \<Rightarrow> SVGNode \<Rightarrow> string \<Rightarrow> CompileIconFontResult \<Rightarrow> error + CompileIconFontResult" where
  "collectManifest env rootNode path result =
     (if name rootNode = Some ''iconfont'' then
        (case children rootNode of
           None \<Rightarrow> Inr result
         | Some childNodes \<Rightarrow> processChildren env path childNodes result)
      else Inr (processNode env rootNode path result))"

definition compileIconFont ::
    "env \<Rightarrow> string \<Rightarrow> string \<Rightarrow> format list option \<Rightarrow> IconFontOptions option
      \<Rightarrow> error + CompileIconFontResult" where
  "compileIconFont env content path formats options =
     (let formats = (case formats of None \<Rightarrow> defaultFormats | Some fs \<Rightarrow> fs)
      in case XmlDocument env content of
           Inl e \<Rightarrow> Inl e
         | Inr rootNode \<Rightarrow>
             let attrs = (case attr rootNode of None \<Rightarrow> Map.empty | Some a \<Rightarrow> a);
                 result =
                   newResult
                     (nullish (case options of None \<Rightarrow> Undefined | Some over \<Rightarrow> startUnicodeOption over)
                        (nullish (parseNumber env (attrs ''startUnicode'')) (Num 0xea01)))
             in case collectManifest env rootNode path result of
                  Inl e \<Rightarrow> Inl e
                | Inr result \<Rightarrow>
                    generateIconFont env result formats
                      (manifestOptions env attrs path result options))"

datatype source = SourcePath string | SourceObject string "string option" SVGIcon

definition newString :: "string \<Rightarrow> SVGIcon" where
  "newString s =
     \<lparr>iconName = None, unicode = None, autoUnicode = None, className = None, title = None,
      body = Text s\<rparr>"

definition processObject ::
    "env \<Rightarrow> string \<Rightarrow> string \<Rightarrow> CompileIconFontResult \<Rightarrow> CompileIconFontResult" where
  "processObject env path content result =
     (let icon = newString content;
          (iconName', iconNames') =
            getUnique (case iconName icon of Some v \<Rightarrow> v | None \<Rightarrow> getName env path)
              (iconNames result);
          icon = icon\<lparr>iconName := Some iconName'\<rparr>;
          (className', classNames') =
            getUnique (case className icon of Some v \<Rightarrow> v | None \<Rightarrow> iconName')
              (classNames result);
          icon = icon\<lparr>className := Some className'\<rparr>;
          result = result\<lparr>iconNames := iconNames', classNames := classNames'\<rparr>;
          (icon, result) =
            (case unicode icon of
               Some u \<Rightarrow>
                 let (unicode', unicodes') = getUniqueUnicode (Num u) (unicodes result)
                 in (icon\<lparr>unicode := Some unicode'\<rparr>, result\<lparr>unicodes := unicodes'\<rparr>)
             | None \<Rightarrow>
                 let (unicode', unicodes') = getUniqueUnicode (startUnicode result) (unicodes result)
                 in (icon\<lparr>unicode := Some unicode', autoUnicode := Some True\<rparr>,
                     result\<lparr>unicodes := unicodes', startUnicode := Num unicode'\<rparr>))
      in result\<lparr>icons := icons result @ [icon]\<rparr>)"

fun processSources ::
    "env \<Rightarrow> source list \<Rightarrow> CompileIconFontResult \<Rightarrow> error + CompileIconFontResult" where
  "processSources env [] result = Inr result"
| "processSources env (SourcePath path # rest) result =
     (case processFile env path result of
        Inl e \<Rightarrow> Inl e
      | Inr result \<Rightarrow> processSources env rest result)"
| "processSources env (SourceObject path content given # rest) result =
     (let result = result\<lparr>dependencies := dependencies result @ [path]\<rparr>
      in case (case content of Some c \<Rightarrow> Inr c | None \<Rightarrow> readText env path) of
           Inl e \<Rightarrow> Inl e
         | Inr c \<Rightarrow> processSources env rest (processObject env path c result))"

definition compileIconFontFromSources ::
    "env \<Rightarrow> source list \<Rightarrow> format list option \<Rightarrow> IconFontOptions option
      \<Rightarrow> error + CompileIconFontResult" where
  "compileIconFontFromSources env sources formats options =
     (let formats = (case formats of None \<Rightarrow> defaultFormats | Some fs \<Rightarrow> fs);
          result =
            newResult
              (nullish (case options of None \<Rightarrow> Undefined | Some over \<Rightarrow> startUnicodeOption over)
                 (Num 0xea01))
      in case processSources env sources result of
           Inl e \<Rightarrow> Inl e
         | Inr result \<Rightarrow>
             generateIconFont env result formats
               ((case options of None \<Rightarrow> noOptions | Some over \<Rightarrow> over)
                  \<lparr>startUnicodeOption := startUnicode result\<rparr>))"

section \<open>Notions used by the properties\<close>

text \<open>
  \<open>uniqueIcons\<close> and \<open>grows\<close> state the invariant of the registry; \<open>registered\<close> is the
  fact the proof needs beside it. \<open>requires\<close> lists the dependency rules of the formats
  as the specification gives them (\<^verbatim>\<open>ttf\<close> requires the font container, \<^verbatim>\<open>eot\<close>,
  \<^verbatim>\<open>woff\<close> and \<^verbatim>\<open>woff2\<close> require \<^verbatim>\<open>ttf\<close>, \<^verbatim>\<open>js\<close> requires the sprite), and
  \<open>activated\<close> holds of the formats on the dependency chain of a requested one.
\<close>


definition uniqueIcons :: "CompileIconFontResult \<Rightarrow> bool" where
  "uniqueIcons r =
     (distinct (map iconName (icons r)) \<and> distinct (map className (icons r))
      \<and> distinct (map unicode (icons r)))"

definition registered :: "CompileIconFontResult \<Rightarrow> bool" where
  "registered r =
     (set (map iconName (icons r)) \<subseteq> Some ` fset (iconNames r)
      \<and> set (map className (icons r)) \<subseteq> Some ` fset (classNames r)
      \<and> set (map unicode (icons r)) \<subseteq> Some ` fset (unicodes r))"

definition grows :: "CompileIconFontResult \<Rightarrow> CompileIconFontResult \<Rightarrow> bool" where
  "grows r r' =
     (iconNames r |\<subseteq>| iconNames r' \<and> classNames r |\<subseteq>| classNames r'
      \<and> unicodes r |\<subseteq>| unicodes r')"

fun requires :: "format \<Rightarrow> format list" where
  "requires Ttf = [SvgFont]"
| "requires Eot = [Ttf]"
| "requires Woff = [Ttf]"
| "requires Woff2 = [Ttf]"
| "requires Js = [Svg]"
| "requires SvgFont = []"
| "requires Svg = []"
| "requires Css = []"
| "requires Html = []"

definition dependencyChain :: "format \<Rightarrow> format list" where
  "dependencyChain x = x # requires x @ concat (map requires (requires x))"

definition activated :: "format list \<Rightarrow> format \<Rightarrow> bool" where
  "activated formats a = (\<exists>x \<in> set formats. a \<in> set (dependencyChain x))"

definition generationOrder :: "format list" where
  "generationOrder = [SvgFont, Ttf, Eot, Woff, Woff2, Svg, Js, Css, Html]"

fun flagOf :: "format \<Rightarrow> formatFlags \<Rightarrow> bool" where
  "flagOf SvgFont = svgFontFlag"
| "flagOf Ttf = ttfFlag"
| "flagOf Eot = eotFlag"
| "flagOf Woff = woffFlag"
| "flagOf Woff2 = woff2Flag"
| "flagOf Svg = svgFlag"
| "flagOf Js = jsFlag"
| "flagOf Css = cssFlag"
| "flagOf Html = htmlFlag"

fun stepOf :: "env \<Rightarrow> format \<Rightarrow> generation \<Rightarrow> error + generation" where
  "stepOf env SvgFont = svgFontStep env"
| "stepOf env Ttf = ttfStep env"
| "stepOf env Eot = eotStep env"
| "stepOf env Woff = woffStep env"
| "stepOf env Woff2 = woff2Step env"
| "stepOf env Svg = svgStep env"
| "stepOf env Js = jsStep env"
| "stepOf env Css = cssStep env"
| "stepOf env Html = htmlStep env"

fun has :: "format \<Rightarrow> CompileIconFontResult \<Rightarrow> bool" where
  "has SvgFont r = (svgFont r \<noteq> None)"
| "has Ttf r = (ttf r \<noteq> None)"
| "has Eot r = (eot r \<noteq> None)"
| "has Woff r = (woff r \<noteq> None)"
| "has Woff2 r = (woff2 r \<noteq> None)"
| "has Svg r = (svg r \<noteq> None)"
| "has Js r = (js r \<noteq> None)"
| "has Css r = (css r \<noteq> None)"
| "has Html r = (html r \<noteq> None)"

definition identity ::
    "CompileIconFontResult \<Rightarrow> (string option list \<times> string option list \<times> int option list)
       \<times> string fset \<times> string fset \<times> int fset" where
  "identity r =
     ((map iconName (icons r), map className (icons r), map unicode (icons r)),
      iconNames r, classNames r, unicodes r)"

definition outputs ::
    "CompileIconFontResult \<Rightarrow> (string option \<times> buffer option \<times> buffer option \<times> buffer option
       \<times> buffer option) \<times> (string option \<times> string option \<times> string option \<times> string option)
       \<times> format list" where
  "outputs r =
     ((svgFont r, eot r, ttf r, woff r, woff2 r), (js r, svg r, css r, html r), generated r)"

subsection \<open>Concrete inputs\<close>

text \<open>
  The external collaborators are parameters of the model. To run it on concrete inputs,
  \<open>exampleEnv\<close> fixes them: a parser that knows two documents, a file system with one
  icon file, and codecs that answer with fixed bytes.
\<close>

definition svgNode :: SVGNode where
  "svgNode = SVGNode (Some ''svg'') (Some Map.empty) (Some [])"

definition namedNode :: SVGNode where
  "namedNode = SVGNode (Some ''svg'') (Some [''name'' \<mapsto> ''a'']) (Some [])"

definition explicitNode :: SVGNode where
  "explicitNode = SVGNode (Some ''svg'') (Some [''unicode'' \<mapsto> ''0x41'']) (Some [])"

definition manifestText :: string where
  \<open>manifestText = ''<iconfont><svg name="a"/><svg name="a"/></iconfont>''\<close>

definition manifestNode :: SVGNode where
  "manifestNode = SVGNode (Some ''iconfont'') (Some Map.empty) (Some [namedNode, namedNode])"

definition exampleEnv :: env where
  "exampleEnv =
     \<lparr>getName = takeWhile (\<lambda>c. c \<noteq> CHR ''.''),
      getDir = (\<lambda>path. []),
      resolvePath = (\<lambda>path src. src),
      isGlob = (\<lambda>src. CHR ''*'' \<in> set src),
      glob = (\<lambda>pattern cwd. Inr [''a.svg'']),
      readText = (\<lambda>path. if path = ''a.svg'' then Inr ''<svg/>'' else Inl IOError),
      XmlDocument =
        (\<lambda>content. if content = manifestText then Inr manifestNode
                    else if content = ''<svg/>'' then Inr svgNode else Inl XMLError),
      nodeToString = (\<lambda>node. ''<svg/>''),
      parseFloat = (\<lambda>s. NaN),
      divide100 = (\<lambda>n. NaN),
      SVGIcons2SVGFontStream = (\<lambda>options glyphs. Inr ''<svg></svg>''),
      svg2ttf = (\<lambda>content options. Inr [1]),
      ttf2eot = (\<lambda>b. Inr (2 # b)),
      ttf2woff = (\<lambda>b options. Inr (3 # b)),
      wawoff2_compress = (\<lambda>b. Inr (4 # b)),
      quoteJSString = (\<lambda>s. [CHR 0x22] @ s @ [CHR 0x22]),
      generateHTML = (\<lambda>iconList options. Inr ''<ul></ul>'')\<rparr>"

definition exampleSources :: "source list" where
  "exampleSources = [SourcePath ''a.svg'', SourceObject ''b.svg'' (Some ''<svg/>'') (newString [])]"

definition warnIcon :: SVGIcon where
  "warnIcon =
     \<lparr>iconName = Some ''warn'', unicode = Some 0xea01, autoUnicode = Some True,
      className = Some ''warn'', title = Some ''warn'', body = Text ''<svg/>''\<rparr>"

section \<open>Properties of the registry\<close>

lemma getUnique_loop_spec:
  "\<exists>k\<ge>i. getUnique_loop content S i = content @ ''-'' @ numberToString k
      \<and> content @ ''-'' @ numberToString k |\<notin>| S
      \<and> (\<forall>j. i \<le> j \<and> j < k \<longrightarrow> content @ ''-'' @ numberToString j |\<in>| S)"
proof (induction content S i rule: getUnique_loop.induct)
  case (1 content S i)
  show ?case
  proof (cases "content @ ''-'' @ numberToString i |\<in>| S")
    case False
    then have "getUnique_loop content S i = content @ ''-'' @ numberToString i"
      by (simp add: getUnique_loop.simps[of content S i])
    with False show ?thesis by (intro exI[of _ i]) auto
  next
    case True
    from "1.IH"[OF refl] True obtain k where k: "i + 1 \<le> k"
      "getUnique_loop content S (i + 1) = content @ ''-'' @ numberToString k"
      "content @ ''-'' @ numberToString k |\<notin>| S"
      "\<forall>j. i + 1 \<le> j \<and> j < k \<longrightarrow> content @ ''-'' @ numberToString j |\<in>| S"
      by auto
    from True have "getUnique_loop content S i = getUnique_loop content S (i + 1)"
      by (simp add: getUnique_loop.simps[of content S i])
    moreover have "\<forall>j. i \<le> j \<and> j < k \<longrightarrow> content @ ''-'' @ numberToString j |\<in>| S"
    proof (intro allI impI)
      fix j assume "i \<le> j \<and> j < k"
      then show "content @ ''-'' @ numberToString j |\<in>| S"
        using True k(4) by (cases "j = i") auto
    qed
    ultimately show ?thesis using k by (intro exI[of _ k]) simp
  qed
qed

lemma getUniqueUnicode_loop_spec:
  "n \<le> getUniqueUnicode_loop n S \<and> getUniqueUnicode_loop n S |\<notin>| S
     \<and> (\<forall>k. n \<le> k \<and> k < getUniqueUnicode_loop n S \<longrightarrow> k |\<in>| S)"
proof (induction n S rule: getUniqueUnicode_loop.induct)
  case (1 n S)
  show ?case
  proof (cases "n |\<in>| S")
    case False
    then show ?thesis by (auto simp add: getUniqueUnicode_loop.simps[of n S])
  next
    case True
    then have e: "getUniqueUnicode_loop n S = getUniqueUnicode_loop (n + 1) S"
      by (simp add: getUniqueUnicode_loop.simps[of n S])
    have "\<forall>k. n \<le> k \<and> k < getUniqueUnicode_loop (n + 1) S \<longrightarrow> k |\<in>| S"
    proof (intro allI impI)
      fix k assume "n \<le> k \<and> k < getUniqueUnicode_loop (n + 1) S"
      then show "k |\<in>| S" using True "1.IH"[OF True] by (cases "k = n") auto
    qed
    with "1.IH"[OF True] show ?thesis unfolding e by simp
  qed
qed

lemma getUnique_cases:
  "\<exists>r. getUnique content S = (r, finsert r S) \<and> r |\<notin>| S \<and>
     (content |\<notin>| S \<longrightarrow> r = content) \<and>
     (content |\<in>| S \<longrightarrow>
        (\<exists>i\<ge>2. r = content @ ''-'' @ numberToString i \<and>
           (\<forall>j. 2 \<le> j \<and> j < i \<longrightarrow> content @ ''-'' @ numberToString j |\<in>| S)))"
proof (cases "content |\<in>| S")
  case False
  then show ?thesis by (simp add: getUnique_def Let_def)
next
  case True
  from getUnique_loop_spec[of 2 content S] obtain k where k: "2 \<le> k"
    "getUnique_loop content S 2 = content @ ''-'' @ numberToString k"
    "content @ ''-'' @ numberToString k |\<notin>| S"
    "\<forall>j. 2 \<le> j \<and> j < k \<longrightarrow> content @ ''-'' @ numberToString j |\<in>| S"
    by auto
  with True show ?thesis by (auto simp add: getUnique_def Let_def)
qed

lemma getUniqueUnicode_least:
  assumes "start = (case candidate of Num n \<Rightarrow> n | NaN \<Rightarrow> 0xea01 | Undefined \<Rightarrow> 0xea01)"
  shows "\<exists>u. getUniqueUnicode candidate S = (u, finsert u S) \<and> u |\<notin>| S \<and> start \<le> u \<and>
     (\<forall>k. start \<le> k \<and> k < u \<longrightarrow> k |\<in>| S)"
proof (cases "start |\<in>| S")
  case False
  with assms show ?thesis by (auto simp add: getUniqueUnicode_def Let_def split: number.splits)
next
  case True
  with assms getUniqueUnicode_loop_spec[of start S] show ?thesis
    by (auto simp add: getUniqueUnicode_def Let_def split: number.splits)
qed

lemma getUnique_eqD: "getUnique c S = (x, S') \<Longrightarrow> S' = finsert x S \<and> x |\<notin>| S"
  using getUnique_cases[of c S] by auto

lemma getUniqueUnicode_eqD: "getUniqueUnicode c S = (u, S') \<Longrightarrow> S' = finsert u S \<and> u |\<notin>| S"
  using getUniqueUnicode_least[OF refl, of c S] by auto

subsection \<open>The unicode registry on doubles\<close>

text \<open>
  Below \<open>2^53\<close> every integer is a double and \<^verbatim>\<open>++\<close> is exact; at \<open>2^53\<close> the sum
  \<open>2^53 + 1\<close> lies half way between two doubles and rounds back to \<open>2^53\<close>.
\<close>

lemma bitLength_le: "n < 2 ^ k \<Longrightarrow> bitLength n \<le> k"
proof (induction k arbitrary: n)
  case 0
  then show ?case by (simp add: bitLength.simps)
next
  case (Suc k)
  show ?case
  proof (cases "n \<le> 0")
    case True
    then show ?thesis by (simp add: bitLength.simps)
  next
    case False
    from Suc.prems have "n div 2 < 2 ^ k" by simp
    then have "bitLength (n div 2) \<le> k" by (rule Suc.IH)
    with False show ?thesis by (subst bitLength.simps) simp
  qed
qed

lemma round53_exact: "n < 2 ^ 53 \<Longrightarrow> round53 n = n"
  using bitLength_le[of n 53] by (simp add: round53_def Let_def)

lemma round53_limit:
  "round53 9007199254740992 = 9007199254740992"
  "round53 9007199254740993 = 9007199254740992"
  by code_simp+

lemma roundDouble_int:
  assumes "\<bar>n\<bar> \<le> 2 ^ 53"
  shows "roundDouble (of_int n) = of_int n"
proof -
  have r: "round53 \<bar>n\<bar> = \<bar>n\<bar>"
  proof (cases "\<bar>n\<bar> = 2 ^ 53")
    case True
    then show ?thesis by (simp add: round53_limit)
  next
    case False
    with assms have "\<bar>n\<bar> < 2 ^ 53" by simp
    then show ?thesis by (rule round53_exact)
  qed
  have e: "sgn n * round53 \<bar>n\<bar> = n"
    unfolding r by (rule mult_sgn_abs)
  have "(of_int (sgn n * round53 \<bar>n\<bar>) :: rat) = of_int n"
    by (simp only: e)
  then show ?thesis by (simp add: roundDouble_def)
qed

lemma increment_int:
  assumes "- (2 ^ 53) \<le> n" "n < 2 ^ 53"
  shows "increment (DNum (of_int n)) = DNum (of_int (n + 1))"
proof -
  from assms have "\<bar>n + 1\<bar> \<le> 2 ^ 53" by simp
  then have "roundDouble (of_int (n + 1)) = of_int (n + 1)" by (rule roundDouble_int)
  then show ?thesis by simp
qed

lemma increment_limit: "increment (DNum (2 ^ 53)) = DNum (2 ^ 53)"
proof -
  have "roundDouble (of_int (2 ^ 53 + 1)) = of_int (2 ^ 53)"
    by (simp only: roundDouble_def quotient_of_int) (simp add: round53_limit)
  then show ?thesis by simp
qed

lemma getUniqueUnicode_double_loop_stuck:
  assumes "increment x = x" "x |\<in>| S"
  shows "getUniqueUnicode_double_loop x S = None"
proof (rule ccontr)
  assume "getUniqueUnicode_double_loop x S \<noteq> None"
  then obtain y where "getUniqueUnicode_double_loop x S = Some y" by auto
  then have "\<not> (increment x = x \<and> x |\<in>| S)"
  proof (rule getUniqueUnicode_double_loop.raw_induct
      [where P = "\<lambda>a b y. \<not> (increment a = a \<and> a |\<in>| b)", rotated])
    fix f a b z
    assume "\<And>a b z. f a b = Some z \<Longrightarrow> \<not> (increment a = a \<and> a |\<in>| b)"
      and "(if a |\<in>| b then f (increment a) b else Some a) = Some z"
    then show "\<not> (increment a = a \<and> a |\<in>| b)" by (auto split: if_splits)
  qed
  with assms show False by simp
qed

lemma getUniqueUnicode_double_loop_absent:
  assumes "getUniqueUnicode_double_loop x S = Some y"
  shows "y |\<notin>| S"
  using assms
proof (rule getUniqueUnicode_double_loop.raw_induct[where P = "\<lambda>a b y. y |\<notin>| b", rotated])
  fix f a b z
  assume "\<And>a b z. f a b = Some z \<Longrightarrow> z |\<notin>| b"
    and "(if a |\<in>| b then f (increment a) b else Some a) = Some z"
  then show "z |\<notin>| b" by (auto split: if_splits)
qed

lemma getUniqueUnicode_double_loop_int:
  assumes "- (2 ^ 53) \<le> n" "n \<le> 2 ^ 53" "DNum (2 ^ 53) |\<notin>| S"
  shows "\<exists>u. getUniqueUnicode_double_loop (DNum (of_int n)) S = Some (DNum (of_int u)) \<and>
             DNum (of_int u) |\<notin>| S \<and> n \<le> u \<and> (\<forall>k. n \<le> k \<and> k < u \<longrightarrow> DNum (of_int k) |\<in>| S)"
  using assms
proof (induction "nat (2 ^ 53 - n)" arbitrary: n)
  case 0
  then have "n = 2 ^ 53" by simp
  with 0 show ?case
    by (intro exI[of _ n]) (auto simp: getUniqueUnicode_double_loop.simps)
next
  case (Suc d)
  show ?case
  proof (cases "DNum (of_int n) |\<in>| S")
    case False
    then show ?thesis
      by (intro exI[of _ n]) (auto simp: getUniqueUnicode_double_loop.simps)
  next
    case True
    from Suc.hyps(2) have lt: "n < 2 ^ 53" by simp
    have d: "d = nat (2 ^ 53 - (n + 1))" using Suc.hyps(2) by simp
    from Suc.prems lt have "- (2 ^ 53) \<le> n + 1" "n + 1 \<le> 2 ^ 53" by simp_all
    from Suc.hyps(1)[OF d this Suc.prems(3)]
    obtain u where u: "getUniqueUnicode_double_loop (DNum (of_int (n + 1))) S = Some (DNum (of_int u))"
      "DNum (of_int u) |\<notin>| S" "n + 1 \<le> u" "\<forall>k. n + 1 \<le> k \<and> k < u \<longrightarrow> DNum (of_int k) |\<in>| S"
      by blast
    have step: "getUniqueUnicode_double_loop (DNum (of_int n)) S =
        getUniqueUnicode_double_loop (DNum (of_int (n + 1))) S"
      using True increment_int[OF Suc.prems(1) lt]
      by (subst getUniqueUnicode_double_loop.simps) simp
    have "\<forall>k. n \<le> k \<and> k < u \<longrightarrow> DNum (of_int k) |\<in>| S"
    proof (intro allI impI)
      fix k assume "n \<le> k \<and> k < u"
      then consider "k = n" | "n + 1 \<le> k \<and> k < u" by linarith
      then show "DNum (of_int k) |\<in>| S" using True u(4) by cases auto
    qed
    with u step show ?thesis by (intro exI[of _ u]) simp
  qed
qed

lemma getUniqueUnicode_double_least:
  assumes "isNaN candidate \<and> start = 0xea01 \<or> candidate = DNum (of_int start) \<and> \<bar>start\<bar> \<le> 2 ^ 53"
    and "DNum (2 ^ 53) |\<notin>| S"
  shows "\<exists>u. getUniqueUnicode_double candidate S = Some (DNum (of_int u), finsert (DNum (of_int u)) S) \<and>
             DNum (of_int u) |\<notin>| S \<and> start \<le> u \<and> (\<forall>k. start \<le> k \<and> k < u \<longrightarrow> DNum (of_int k) |\<in>| S)"
proof -
  from assms(1) have x: "(if isNaN candidate then DNum 0xea01 else candidate) = DNum (of_int start)"
    and b: "- (2 ^ 53) \<le> start" "start \<le> 2 ^ 53"
    by auto
  from getUniqueUnicode_double_loop_int[OF b assms(2)]
  obtain u where u: "getUniqueUnicode_double_loop (DNum (of_int start)) S = Some (DNum (of_int u))"
    "DNum (of_int u) |\<notin>| S" "start \<le> u" "\<forall>k. start \<le> k \<and> k < u \<longrightarrow> DNum (of_int k) |\<in>| S"
    by blast
  show ?thesis
  proof (cases "DNum (of_int start) |\<in>| S")
    case True
    with u x show ?thesis
      by (intro exI[of _ u]) (simp add: getUniqueUnicode_double_def Let_def)
  next
    case False
    with x b show ?thesis
      by (intro exI[of _ start]) (auto simp: getUniqueUnicode_double_def Let_def)
  qed
qed

lemma getUniqueUnicode_double_absent:
  assumes "\<not> isNaN c" "c |\<notin>| S"
  shows "getUniqueUnicode_double c S = Some (c, finsert c S)"
  using assms by (simp add: getUniqueUnicode_double_def Let_def)

lemma getUniqueUnicode_double_fresh:
  assumes "getUniqueUnicode_double c S = Some (u, S')"
  shows "u |\<notin>| S \<and> S' = finsert u S"
  using assms getUniqueUnicode_double_loop_absent
  by (auto simp: getUniqueUnicode_double_def Let_def split: if_splits option.splits)

lemma getUniqueUnicode_double_stuck:
  "getUniqueUnicode_double (DNum (2 ^ 53)) {|DNum (2 ^ 53)|} = None"
  "getUniqueUnicode_double DInfinity {|DInfinity|} = None"
  using getUniqueUnicode_double_loop_stuck[OF increment_limit, of "{|DNum (2 ^ 53)|}"]
    getUniqueUnicode_double_loop_stuck[of DInfinity "{|DInfinity|}"]
  by (simp_all add: getUniqueUnicode_double_def Let_def)


lemma roundDouble_numeral:
  "(numeral k :: int) \<le> 2 ^ 53 \<Longrightarrow> roundDouble (numeral k) = numeral k"
  using roundDouble_int[of "numeral k"] by simp

text \<open>
  As long as \<open>2^53\<close> is not registered, the function on integers and the function on
  doubles return the same code point and the same set.
\<close>

lemma getUniqueUnicode_refines:
  assumes bound: "\<forall>n. candidate = Num n \<longrightarrow> \<bar>n\<bar> \<le> 2 ^ 53"
    and free: "2 ^ 53 |\<notin>| S"
  shows "getUniqueUnicode_double (toDouble candidate) ((\<lambda>k. DNum (of_int k)) |`| S) =
     Some (DNum (of_int (fst (getUniqueUnicode candidate S))),
           (\<lambda>k. DNum (of_int k)) |`| snd (getUniqueUnicode candidate S))"
proof -
  define start where "start = (case candidate of Num n \<Rightarrow> n | NaN \<Rightarrow> 0xea01 | Undefined \<Rightarrow> 0xea01)"
  define D where "D = (\<lambda>k :: int. DNum (of_int k))"
  have mem: "D k |\<in>| D |`| S \<longleftrightarrow> k |\<in>| S" for k
    by (auto simp: D_def)
  from getUniqueUnicode_least[OF start_def, of S]
  obtain u where u: "getUniqueUnicode candidate S = (u, finsert u S)" "u |\<notin>| S" "start \<le> u"
    "\<forall>k. start \<le> k \<and> k < u \<longrightarrow> k |\<in>| S"
    by blast
  have c: "isNaN (toDouble candidate) \<and> start = 0xea01 \<or>
      toDouble candidate = DNum (of_int start) \<and> \<bar>start\<bar> \<le> 2 ^ 53"
    using bound by (cases candidate) (simp_all add: start_def)
  have "DNum (2 ^ 53) = D (2 ^ 53)" by (simp add: D_def)
  with free mem[of "2 ^ 53"] have f: "DNum (2 ^ 53) |\<notin>| D |`| S" by simp
  from getUniqueUnicode_double_least[OF c f]
  obtain v where v: "getUniqueUnicode_double (toDouble candidate) (D |`| S) = Some (D v, finsert (D v) (D |`| S))"
    "D v |\<notin>| D |`| S" "start \<le> v" "\<forall>k. start \<le> k \<and> k < v \<longrightarrow> D k |\<in>| D |`| S"
    unfolding D_def by blast
  have "v = u"
  proof (rule ccontr)
    assume "v \<noteq> u"
    then consider "v < u" | "u < v" by linarith
    then show False
    proof cases
      case 1
      with u(4) v(3) have "v |\<in>| S" by simp
      with v(2) mem show False by simp
    next
      case 2
      with v(4) u(3) have "D u |\<in>| D |`| S" by simp
      with u(2) mem show False by simp
    qed
  qed
  with u v show ?thesis by (simp add: D_def)
qed

section \<open>Properties of the collector\<close>

lemma processNode_other: "name icon \<noteq> Some ''svg'' \<Longrightarrow> processNode env icon path r = r"
  by (simp add: processNode_def)

lemma processNode_svg:
  assumes "name icon = Some ''svg''"
  shows "\<exists>n c u new. n |\<notin>| iconNames r \<and> c |\<notin>| classNames r \<and> u |\<notin>| unicodes r
     \<and> iconNames (processNode env icon path r) = finsert n (iconNames r)
     \<and> classNames (processNode env icon path r) = finsert c (classNames r)
     \<and> unicodes (processNode env icon path r) = finsert u (unicodes r)
     \<and> icons (processNode env icon path r) = icons r @ [new]
     \<and> iconName new = Some n \<and> className new = Some c \<and> unicode new = Some u"
proof -
  obtain n N where n: "getUnique (case attrOf icon ''id'' of Some v \<Rightarrow> v | None \<Rightarrow> getName env path)
      (iconNames r) = (n, N)"
    by (cases "getUnique (case attrOf icon ''id'' of Some v \<Rightarrow> v | None \<Rightarrow> getName env path)
      (iconNames r)")
  obtain c C where c: "getUnique (case attrOf icon ''class'' of Some v \<Rightarrow> v | None \<Rightarrow> n)
      (classNames r) = (c, C)"
    by (cases "getUnique (case attrOf icon ''class'' of Some v \<Rightarrow> v | None \<Rightarrow> n) (classNames r)")
  note nD = getUnique_eqD[OF n] and cD = getUnique_eqD[OF c]
  show ?thesis
  proof (cases "attrOf icon ''unicode''")
    case None
    obtain u U where u: "getUniqueUnicode (startUnicode r) (unicodes r) = (u, U)"
      by (cases "getUniqueUnicode (startUnicode r) (unicodes r)")
    note uD = getUniqueUnicode_eqD[OF u]
    from assms n c None u nD cD uD show ?thesis
      by (simp add: processNode_def)
  next
    case (Some a)
    obtain u U where u: "getUniqueUnicode
        (if prefix ''0x'' a then parseNumber env (Some a) else codePointAt0 a) (unicodes r) = (u, U)"
      by (cases "getUniqueUnicode
        (if prefix ''0x'' a then parseNumber env (Some a) else codePointAt0 a) (unicodes r)")
    note uD = getUniqueUnicode_eqD[OF u]
    from assms n c Some u nD cD uD show ?thesis
      by (simp add: processNode_def)
  qed
qed


lemma processObject_new:
  "\<exists>n c u new. n |\<notin>| iconNames r \<and> c |\<notin>| classNames r \<and> u |\<notin>| unicodes r
     \<and> iconNames (processObject env path content r) = finsert n (iconNames r)
     \<and> classNames (processObject env path content r) = finsert c (classNames r)
     \<and> unicodes (processObject env path content r) = finsert u (unicodes r)
     \<and> icons (processObject env path content r) = icons r @ [new]
     \<and> iconName new = Some n \<and> className new = Some c \<and> unicode new = Some u"
proof -
  obtain n N where n: "getUnique (getName env path) (iconNames r) = (n, N)"
    by (cases "getUnique (getName env path) (iconNames r)")
  obtain c C where c: "getUnique n (classNames r) = (c, C)"
    by (cases "getUnique n (classNames r)")
  obtain u U where u: "getUniqueUnicode (startUnicode r) (unicodes r) = (u, U)"
    by (cases "getUniqueUnicode (startUnicode r) (unicodes r)")
  note nD = getUnique_eqD[OF n] and cD = getUnique_eqD[OF c] and uD = getUniqueUnicode_eqD[OF u]
  from n c u nD cD uD show ?thesis
    by (simp add: processObject_def newString_def)
qed

text \<open>Appending an icon with fresh identifiers keeps the invariant.\<close>

lemma append_fresh:
  assumes inv: "uniqueIcons r \<and> registered r"
    and fresh: "n |\<notin>| iconNames r" "c |\<notin>| classNames r" "u |\<notin>| unicodes r"
    and sets: "iconNames r' = finsert n (iconNames r)" "classNames r' = finsert c (classNames r)"
      "unicodes r' = finsert u (unicodes r)"
    and new: "icons r' = icons r @ [new]" "iconName new = Some n" "className new = Some c"
      "unicode new = Some u"
  shows "uniqueIcons r' \<and> registered r'"
proof -
  from inv fresh have "Some n \<notin> set (map iconName (icons r))"
    "Some c \<notin> set (map className (icons r))" "Some u \<notin> set (map unicode (icons r))"
    by (auto simp add: registered_def)
  with inv sets new show ?thesis
    by (auto simp add: uniqueIcons_def registered_def)
qed

lemma processNode_inv:
  assumes "uniqueIcons r \<and> registered r"
  shows "uniqueIcons (processNode env icon path r) \<and> registered (processNode env icon path r)"
proof (cases "name icon = Some ''svg''")
  case False
  with assms show ?thesis by (simp add: processNode_other)
next
  case True
  from processNode_svg[OF True, of r env path] obtain n c u new where
    "n |\<notin>| iconNames r" "c |\<notin>| classNames r" "u |\<notin>| unicodes r"
    "iconNames (processNode env icon path r) = finsert n (iconNames r)"
    "classNames (processNode env icon path r) = finsert c (classNames r)"
    "unicodes (processNode env icon path r) = finsert u (unicodes r)"
    "icons (processNode env icon path r) = icons r @ [new]"
    "iconName new = Some n" "className new = Some c" "unicode new = Some u"
    by blast
  with assms show ?thesis by (rule append_fresh)
qed

lemma processObject_inv:
  assumes "uniqueIcons r \<and> registered r"
  shows "uniqueIcons (processObject env path content r) \<and> registered (processObject env path content r)"
proof -
  from processObject_new[of r env path content] obtain n c u new where
    "n |\<notin>| iconNames r" "c |\<notin>| classNames r" "u |\<notin>| unicodes r"
    "iconNames (processObject env path content r) = finsert n (iconNames r)"
    "classNames (processObject env path content r) = finsert c (classNames r)"
    "unicodes (processObject env path content r) = finsert u (unicodes r)"
    "icons (processObject env path content r) = icons r @ [new]"
    "iconName new = Some n" "className new = Some c" "unicode new = Some u"
    by blast
  with assms show ?thesis by (rule append_fresh)
qed

lemma grows_refl: "grows r r"
  by (simp add: grows_def)

lemma grows_trans: "grows r r' \<Longrightarrow> grows r' r'' \<Longrightarrow> grows r r''"
  by (auto simp add: grows_def)

lemma processNode_grows: "grows r (processNode env icon path r)"
proof (cases "name icon = Some ''svg''")
  case False
  then show ?thesis by (simp add: processNode_other grows_refl)
next
  case True
  from processNode_svg[OF True, of r env path] show ?thesis
    by (auto simp add: grows_def)
qed

lemma processObject_grows: "grows r (processObject env path content r)"
  using processObject_new[of r env path content] by (auto simp add: grows_def)

lemma inv_dependencies:
  "uniqueIcons (r\<lparr>dependencies := d\<rparr>) = uniqueIcons r"
  "registered (r\<lparr>dependencies := d\<rparr>) = registered r"
  "uniqueIcons (r\<lparr>globDependencies := g\<rparr>) = uniqueIcons r"
  "registered (r\<lparr>globDependencies := g\<rparr>) = registered r"
  by (simp_all add: uniqueIcons_def registered_def)

lemma grows_dependencies:
  "grows (r\<lparr>dependencies := d\<rparr>) r' = grows r r'"
  "grows (r\<lparr>globDependencies := g\<rparr>) r' = grows r r'"
  by (simp_all add: grows_def)

lemma processFile_inv:
  "processFile env path r = Inr r' \<Longrightarrow> uniqueIcons r \<and> registered r
     \<Longrightarrow> uniqueIcons r' \<and> registered r'"
  using processNode_inv[of "r\<lparr>dependencies := dependencies r @ [path]\<rparr>"]
  by (auto simp add: processFile_def inv_dependencies split: sum.splits)

lemma processFile_grows: "processFile env path r = Inr r' \<Longrightarrow> grows r r'"
  using processNode_grows[of "r\<lparr>dependencies := dependencies r @ [path]\<rparr>"]
  by (auto simp add: processFile_def grows_dependencies split: sum.splits)

lemma processFiles_inv:
  "processFiles env paths r = Inr r' \<Longrightarrow> uniqueIcons r \<and> registered r
     \<Longrightarrow> uniqueIcons r' \<and> registered r'"
proof (induction paths arbitrary: r)
  case Nil
  then show ?case by simp
next
  case (Cons p paths)
  then show ?case
    by (auto split: sum.splits dest: processFile_inv)
qed

lemma processFiles_grows: "processFiles env paths r = Inr r' \<Longrightarrow> grows r r'"
proof (induction paths arbitrary: r)
  case Nil
  then show ?case by (simp add: grows_refl)
next
  case (Cons p paths)
  then show ?case
    by (auto split: sum.splits dest: processFile_grows intro: grows_trans)
qed

lemma processChildren_inv:
  "processChildren env path nodes r = Inr r' \<Longrightarrow> uniqueIcons r \<and> registered r
     \<Longrightarrow> uniqueIcons r' \<and> registered r'"
proof (induction nodes arbitrary: r)
  case Nil
  then show ?case by simp
next
  case (Cons node nodes)
  show ?case
  proof (cases "name node = Some ''svg''")
    case False
    with Cons show ?thesis by simp
  next
    case svg: True
    show ?thesis
    proof (cases "attrOf node ''src''")
      case None
      with svg Cons.prems Cons.IH[of "processNode env node path r"] processNode_inv[of r env node path]
      show ?thesis by simp
    next
      case (Some src)
      show ?thesis
      proof (cases "isGlob env src")
        case True
        let ?r = "r\<lparr>globDependencies := globDependencies r @ [(src, getDir env path)]\<rparr>"
        from True svg Some Cons.prems(1) obtain ps r1 where
          "glob env src (getDir env path) = Inr ps" "processFiles env ps ?r = Inr r1"
          "processChildren env path nodes r1 = Inr r'"
          by (auto simp add: Let_def split: sum.splits)
        moreover from Cons.prems(2) have "uniqueIcons ?r \<and> registered ?r"
          by (simp add: inv_dependencies)
        ultimately show ?thesis
          using processFiles_inv Cons.IH by blast
      next
        case False
        from False svg Some Cons.prems(1) obtain r1 where
          "processFile env (resolvePath env path src) r = Inr r1"
          "processChildren env path nodes r1 = Inr r'"
          by (auto split: sum.splits)
        with Cons.prems(2) show ?thesis
          using processFile_inv Cons.IH by blast
      qed
    qed
  qed
qed

lemma processChildren_grows: "processChildren env path nodes r = Inr r' \<Longrightarrow> grows r r'"
proof (induction nodes arbitrary: r)
  case Nil
  then show ?case by (simp add: grows_refl)
next
  case (Cons node nodes)
  show ?case
  proof (cases "name node = Some ''svg''")
    case False
    with Cons show ?thesis by simp
  next
    case svg: True
    show ?thesis
    proof (cases "attrOf node ''src''")
      case None
      with svg Cons.prems Cons.IH[of "processNode env node path r"] processNode_grows[of r env node path]
      show ?thesis by (auto intro: grows_trans)
    next
      case (Some src)
      show ?thesis
      proof (cases "isGlob env src")
        case True
        let ?r = "r\<lparr>globDependencies := globDependencies r @ [(src, getDir env path)]\<rparr>"
        from True svg Some Cons.prems(1) obtain ps r1 where
          "glob env src (getDir env path) = Inr ps" "processFiles env ps ?r = Inr r1"
          "processChildren env path nodes r1 = Inr r'"
          by (auto simp add: Let_def split: sum.splits)
        then have "grows ?r r1" "grows r1 r'"
          using processFiles_grows Cons.IH by blast+
        then show ?thesis
          using grows_trans grows_dependencies by blast
      next
        case False
        from False svg Some Cons.prems(1) obtain r1 where
          "processFile env (resolvePath env path src) r = Inr r1"
          "processChildren env path nodes r1 = Inr r'"
          by (auto split: sum.splits)
        then show ?thesis
          using processFile_grows Cons.IH grows_trans by blast
      qed
    qed
  qed
qed

lemma processSources_inv:
  "processSources env sources r = Inr r' \<Longrightarrow> uniqueIcons r \<and> registered r
     \<Longrightarrow> uniqueIcons r' \<and> registered r'"
proof (induction env sources r rule: processSources.induct)
  case (1 env result)
  then show ?case by simp
next
  case (2 env path rest result)
  then show ?case
    by (auto split: sum.splits dest: processFile_inv)
next
  case (3 env path content given rest result)
  let ?r = "result\<lparr>dependencies := dependencies result @ [path]\<rparr>"
  from "3.prems"(1) obtain c where c: "(case content of Some c \<Rightarrow> Inr c | None \<Rightarrow> readText env path) = Inr c"
    and run: "processSources env rest (processObject env path c ?r) = Inr r'"
    by (auto simp add: Let_def split: sum.splits)
  from "3.prems"(2) have "uniqueIcons ?r \<and> registered ?r"
    by (simp add: inv_dependencies)
  then have "uniqueIcons (processObject env path c ?r) \<and> registered (processObject env path c ?r)"
    by (rule processObject_inv)
  with "3.IH"[OF refl c run] show ?case by simp
qed

lemma processSources_grows: "processSources env sources r = Inr r' \<Longrightarrow> grows r r'"
proof (induction env sources r rule: processSources.induct)
  case (1 env result)
  then show ?case by (simp add: grows_refl)
next
  case (2 env path rest result)
  then show ?case
    by (auto split: sum.splits dest: processFile_grows intro: grows_trans)
next
  case (3 env path content given rest result)
  let ?r = "result\<lparr>dependencies := dependencies result @ [path]\<rparr>"
  from "3.prems"(1) obtain c where c: "(case content of Some c \<Rightarrow> Inr c | None \<Rightarrow> readText env path) = Inr c"
    and run: "processSources env rest (processObject env path c ?r) = Inr r'"
    by (auto simp add: Let_def split: sum.splits)
  have "grows ?r (processObject env path c ?r)"
    by (rule processObject_grows)
  with "3.IH"[OF refl c run] show ?case
    using grows_trans grows_dependencies by blast
qed


lemma has_outputs: "outputs r' = outputs r \<Longrightarrow> has a r' = has a r"
  by (cases a; simp add: outputs_def)

lemma generated_outputs: "outputs r' = outputs r \<Longrightarrow> generated r' = generated r"
  by (simp add: outputs_def)

lemma processNode_outputs: "outputs (processNode env icon path r) = outputs r"
  by (simp add: processNode_def outputs_def Let_def split: prod.splits option.splits)

lemma processObject_outputs: "outputs (processObject env path content r) = outputs r"
  by (simp add: processObject_def newString_def outputs_def Let_def split: prod.splits option.splits)

lemma outputs_dependencies:
  "outputs (r\<lparr>dependencies := d\<rparr>) = outputs r"
  "outputs (r\<lparr>globDependencies := g\<rparr>) = outputs r"
  by (simp_all add: outputs_def)

lemma processFile_outputs: "processFile env path r = Inr r' \<Longrightarrow> outputs r' = outputs r"
  by (auto simp add: processFile_def processNode_outputs outputs_dependencies split: sum.splits)

lemma processFiles_outputs: "processFiles env paths r = Inr r' \<Longrightarrow> outputs r' = outputs r"
proof (induction paths arbitrary: r)
  case Nil
  then show ?case by simp
next
  case (Cons p paths)
  from Cons.prems obtain r1 where "processFile env p r = Inr r1" "processFiles env paths r1 = Inr r'"
    by (auto split: sum.splits)
  with Cons.IH[of r1] processFile_outputs[of env p r r1] show ?case by simp
qed

lemma processChildren_outputs:
  "processChildren env path nodes r = Inr r' \<Longrightarrow> outputs r' = outputs r"
proof (induction nodes arbitrary: r)
  case Nil
  then show ?case by simp
next
  case (Cons node nodes)
  show ?case
  proof (cases "name node = Some ''svg''")
    case False
    with Cons show ?thesis by simp
  next
    case svg: True
    show ?thesis
    proof (cases "attrOf node ''src''")
      case None
      with svg Cons.prems Cons.IH[of "processNode env node path r"] show ?thesis
        by (simp add: processNode_outputs)
    next
      case (Some src)
      show ?thesis
      proof (cases "isGlob env src")
        case True
        let ?r = "r\<lparr>globDependencies := globDependencies r @ [(src, getDir env path)]\<rparr>"
        from True svg Some Cons.prems(1) obtain ps r1 where
          "glob env src (getDir env path) = Inr ps" "processFiles env ps ?r = Inr r1"
          "processChildren env path nodes r1 = Inr r'"
          by (auto simp add: Let_def split: sum.splits)
        with processFiles_outputs[of env ps ?r r1] Cons.IH[of r1] show ?thesis
          by (simp add: outputs_dependencies)
      next
        case False
        from False svg Some Cons.prems(1) obtain r1 where
          "processFile env (resolvePath env path src) r = Inr r1"
          "processChildren env path nodes r1 = Inr r'"
          by (auto split: sum.splits)
        with processFile_outputs[of env _ r r1] Cons.IH[of r1] show ?thesis
          by simp
      qed
    qed
  qed
qed

lemma processSources_outputs:
  "processSources env sources r = Inr r' \<Longrightarrow> outputs r' = outputs r"
proof (induction env sources r rule: processSources.induct)
  case (1 env result)
  then show ?case by simp
next
  case (2 env path rest result)
  from "2.prems" obtain r1 where r1: "processFile env path result = Inr r1"
    "processSources env rest r1 = Inr r'"
    by (auto split: sum.splits)
  with "2.IH"[OF r1] processFile_outputs[OF r1(1)] show ?case by simp
next
  case (3 env path content given rest result)
  let ?r = "result\<lparr>dependencies := dependencies result @ [path]\<rparr>"
  from "3.prems"(1) obtain c where c: "(case content of Some c \<Rightarrow> Inr c | None \<Rightarrow> readText env path) = Inr c"
    and run: "processSources env rest (processObject env path c ?r) = Inr r'"
    by (auto simp add: Let_def split: sum.splits)
  from "3.IH"[OF refl c run] show ?case
    by (simp add: processObject_outputs outputs_dependencies)
qed

section \<open>Properties of the orchestrator\<close>

lemma flagOf_setFlags: "flagOf a (setFlags f x) = (flagOf a f \<or> a \<in> set (dependencyChain x))"
  by (cases x; cases a; simp add: dependencyChain_def)

lemma flagOf_foldl:
  "flagOf a (foldl setFlags f formats) = (flagOf a f \<or> activated formats a)"
  by (induction formats arbitrary: f) (auto simp add: flagOf_setFlags activated_def)

lemma flagOf_requested: "flagOf a (requestedFlags formats) = activated formats a"
proof -
  have "\<not> flagOf a noFlags"
    by (cases a; simp add: noFlags_def)
  then show ?thesis
    by (simp add: requestedFlags_def flagOf_foldl)
qed

lemma stepOf_effect:
  assumes "stepOf env x g = Inr g'"
  shows "generated (fst g') = generated (fst g) @ [x] \<and> has x (fst g')
     \<and> (\<forall>a. a \<noteq> x \<longrightarrow> has a (fst g') = has a (fst g))
     \<and> iconNames (fst g') = iconNames (fst g) \<and> classNames (fst g') = classNames (fst g)
     \<and> unicodes (fst g') = unicodes (fst g) \<and> startUnicode (fst g') = startUnicode (fst g)"
proof -
  obtain r opts where g: "g = (r, opts)" by (cases g)
  have other: "\<And>a. a \<noteq> x \<Longrightarrow> has a (fst g') = has a (fst g)"
  proof -
    fix a :: format assume "a \<noteq> x"
    with assms g show "has a (fst g') = has a (fst g)"
      by (cases x; cases a;
          auto simp add: svgFontStep_def ttfStep_def eotStep_def woffStep_def woff2Step_def
            svgStep_def jsStep_def cssStep_def htmlStep_def split: sum.splits option.splits)
  qed
  from assms g have "generated (fst g') = generated (fst g) @ [x] \<and> has x (fst g')
     \<and> iconNames (fst g') = iconNames (fst g) \<and> classNames (fst g') = classNames (fst g)
     \<and> unicodes (fst g') = unicodes (fst g) \<and> startUnicode (fst g') = startUnicode (fst g)"
    by (cases x;
        auto simp add: svgFontStep_def ttfStep_def eotStep_def woffStep_def woff2Step_def
          svgStep_def jsStep_def cssStep_def htmlStep_def split: sum.splits option.splits)
  with other show ?thesis by blast
qed



lemma symbolOf_spriteSymbol:
  "spriteSymbol env icon = Inr (t, icon')
     \<Longrightarrow> iconName icon' = iconName icon \<and> className icon' = className icon
       \<and> unicode icon' = unicode icon"
  by (auto simp add: spriteSymbol_def split: sum.splits option.splits prod.splits)

lemma spriteSymbols_fields:
  "spriteSymbols env xs = Inr (t, ys)
     \<Longrightarrow> map iconName ys = map iconName xs \<and> map className ys = map className xs
       \<and> map unicode ys = map unicode xs"
proof (induction xs arbitrary: t ys)
  case Nil
  then show ?case by simp
next
  case (Cons x xs)
  from Cons.prems obtain t1 x' t2 ys' where parts: "spriteSymbol env x = Inr (t1, x')"
    "spriteSymbols env xs = Inr (t2, ys')" "ys = x' # ys'"
    by (auto split: sum.splits prod.splits)
  from symbolOf_spriteSymbol[OF parts(1)] Cons.IH[OF parts(2)] parts(3) show ?case
    by simp
qed

lemma stepOf_icons:
  assumes "stepOf env x g = Inr g'"
  shows "map iconName (icons (fst g')) = map iconName (icons (fst g))
     \<and> map className (icons (fst g')) = map className (icons (fst g))
     \<and> map unicode (icons (fst g')) = map unicode (icons (fst g))"
proof (cases "x = Svg")
  case False
  obtain r opts where g: "g = (r, opts)" by (cases g)
  from assms g False show ?thesis
    by (cases x;
        auto simp add: svgFontStep_def ttfStep_def eotStep_def woffStep_def woff2Step_def
          jsStep_def cssStep_def htmlStep_def split: sum.splits option.splits)
next
  case True
  obtain r opts where g: "g = (r, opts)" by (cases g)
  from assms g True obtain t ys where "spriteSymbols env (icons r) = Inr (t, ys)"
    "icons (fst g') = ys"
    by (auto simp add: svgStep_def generateSVGSprite_def split: sum.splits prod.splits)
  with spriteSymbols_fields[of env "icons r" t ys] g show ?thesis by simp
qed

lemma stepOf_identity: "stepOf env x g = Inr g' \<Longrightarrow> identity (fst g') = identity (fst g)"
  using stepOf_effect[of env x g g'] stepOf_icons[of env x g g'] by (simp add: identity_def)

lemma steps_Inl: "foldl (\<lambda>s x. whenFlag (P x) (stepOf env x) s) (Inl e) xs = Inl e"
  by (induction xs) (simp_all add: whenFlag_def)

lemma steps_effect:
  "foldl (\<lambda>s x. whenFlag (P x) (stepOf env x) s) (Inr g) xs = Inr g'
     \<Longrightarrow> generated (fst g') = generated (fst g) @ filter P xs
       \<and> (\<forall>a. has a (fst g') = (has a (fst g) \<or> (a \<in> set xs \<and> P a)))
       \<and> identity (fst g') = identity (fst g)
       \<and> startUnicode (fst g') = startUnicode (fst g)"
proof (induction xs arbitrary: g)
  case Nil
  then show ?case by simp
next
  case (Cons x xs)
  show ?case
  proof (cases "P x")
    case False
    then have "whenFlag (P x) (stepOf env x) (Inr g) = Inr g"
      by (simp add: whenFlag_def)
    with Cons.prems have "foldl (\<lambda>s x. whenFlag (P x) (stepOf env x) s) (Inr g) xs = Inr g'"
      by simp
    from Cons.IH[OF this] False show ?thesis by auto
  next
    case True
    show ?thesis
    proof (cases "stepOf env x g")
      case (Inl e)
      with True have "whenFlag (P x) (stepOf env x) (Inr g) = Inl e"
        by (simp add: whenFlag_def)
      with Cons.prems show ?thesis
        by (simp add: steps_Inl)
    next
      case (Inr g1)
      with True have "whenFlag (P x) (stepOf env x) (Inr g) = Inr g1"
        by (simp add: whenFlag_def)
      with Cons.prems have "foldl (\<lambda>s x. whenFlag (P x) (stepOf env x) s) (Inr g1) xs = Inr g'"
        by simp
      from Cons.IH[OF this] stepOf_effect[OF Inr] stepOf_identity[OF Inr] True show ?thesis
        by auto
    qed
  qed
qed

lemma generateIconFont_steps:
  "generateIconFont env r formats options =
     (case foldl (\<lambda>s x. whenFlag (activated formats x) (stepOf env x) s) (Inr (r, options))
         generationOrder of
        Inl e \<Rightarrow> Inl e
      | Inr g \<Rightarrow> Inr (fst g))"
  by (simp add: generateIconFont_def generationOrder_def Let_def flagOf_requested[symmetric]
      split: sum.splits prod.splits)

lemma generateIconFont_effect:
  assumes "generateIconFont env r formats options = Inr r'"
  shows "generated r' = generated r @ filter (activated formats) generationOrder
     \<and> (\<forall>a. has a r' = (has a r \<or> activated formats a))
     \<and> identity r' = identity r \<and> startUnicode r' = startUnicode r"
proof -
  from assms obtain g' where
    "foldl (\<lambda>s x. whenFlag (activated formats x) (stepOf env x) s) (Inr (r, options))
       generationOrder = Inr g'" "fst g' = r'"
    by (auto simp add: generateIconFont_steps split: sum.splits)
  from steps_effect[OF this(1)] this(2) show ?thesis
    by (auto simp add: generationOrder_def intro: format.exhaust)
qed


lemma collectManifest_facts:
  assumes "collectManifest env rootNode path r = Inr r'"
  shows "outputs r' = outputs r" and "grows r r'"
    and "uniqueIcons r \<and> registered r \<Longrightarrow> uniqueIcons r' \<and> registered r'"
  using assms processChildren_outputs[of env path _ r r'] processChildren_grows[of env path _ r r']
    processChildren_inv[of env path _ r r'] processNode_outputs[of env rootNode path r]
    processNode_grows[of r env rootNode path] processNode_inv[of r env rootNode path]
  by (auto simp add: collectManifest_def grows_refl split: if_splits option.splits)

lemma newResult_facts:
  "uniqueIcons (newResult start) \<and> registered (newResult start)"
  "generated (newResult start) = []" "\<not> has a (newResult start)"
  by (cases a; simp add: newResult_def uniqueIcons_def registered_def)+

lemma uniqueIcons_identity: "identity r' = identity r \<Longrightarrow> uniqueIcons r' = uniqueIcons r"
  by (simp add: identity_def uniqueIcons_def)

lemma grows_identity: "identity r' = identity r \<Longrightarrow> grows r r'"
  by (simp add: identity_def grows_def)

lemma compileIconFont_phases:
  assumes "compileIconFont env content path formats options = Inr r"
  shows "\<exists>rootNode start collected opts.
     collectManifest env rootNode path (newResult start) = Inr collected
     \<and> generateIconFont env collected
          (case formats of None \<Rightarrow> defaultFormats | Some fs \<Rightarrow> fs) opts = Inr r"
  using assms by (auto simp add: compileIconFont_def Let_def split: sum.splits)

lemma compileIconFontFromSources_phases:
  assumes "compileIconFontFromSources env sources formats options = Inr r"
  shows "\<exists>start collected opts.
     processSources env sources (newResult start) = Inr collected
     \<and> generateIconFont env collected
          (case formats of None \<Rightarrow> defaultFormats | Some fs \<Rightarrow> fs) opts = Inr r"
  using assms by (auto simp add: compileIconFontFromSources_def Let_def split: sum.splits)

lemma generated_from_collected:
  assumes "outputs collected = outputs (newResult start)"
    and "generateIconFont env collected formats opts = Inr r"
  shows "generated r = filter (activated formats) generationOrder
     \<and> has a r = activated formats a"
proof -
  from assms(1) have "generated collected = []" "\<not> has a collected"
    using has_outputs[OF assms(1), of a] generated_outputs[OF assms(1)] newResult_facts(2,3)[where start = start]
    by simp_all
  with generateIconFont_effect[OF assms(2)] show ?thesis by simp
qed

lemma compileIconFont_outputs:
  assumes "compileIconFont env content path formats options = Inr r"
  shows "generated r = filter (activated (case formats of None \<Rightarrow> defaultFormats | Some fs \<Rightarrow> fs))
      generationOrder
     \<and> has a r = activated (case formats of None \<Rightarrow> defaultFormats | Some fs \<Rightarrow> fs) a
     \<and> uniqueIcons r"
proof -
  from compileIconFont_phases[OF assms] obtain rootNode start collected opts where
    c: "collectManifest env rootNode path (newResult start) = Inr collected"
    and g: "generateIconFont env collected
          (case formats of None \<Rightarrow> defaultFormats | Some fs \<Rightarrow> fs) opts = Inr r"
    by blast
  note out = generated_from_collected[OF collectManifest_facts(1)[OF c] g, of a]
  from collectManifest_facts(3)[OF c] newResult_facts(1) have "uniqueIcons collected" by blast
  with generateIconFont_effect[OF g] uniqueIcons_identity[of r collected] have "uniqueIcons r"
    by simp
  with out show ?thesis by simp
qed

lemma compileIconFontFromSources_outputs:
  assumes "compileIconFontFromSources env sources formats options = Inr r"
  shows "generated r = filter (activated (case formats of None \<Rightarrow> defaultFormats | Some fs \<Rightarrow> fs))
      generationOrder
     \<and> has a r = activated (case formats of None \<Rightarrow> defaultFormats | Some fs \<Rightarrow> fs) a
     \<and> uniqueIcons r"
proof -
  from compileIconFontFromSources_phases[OF assms] obtain start collected opts where
    c: "processSources env sources (newResult start) = Inr collected"
    and g: "generateIconFont env collected
          (case formats of None \<Rightarrow> defaultFormats | Some fs \<Rightarrow> fs) opts = Inr r"
    by blast
  note out = generated_from_collected[OF processSources_outputs[OF c] g, of a]
  from processSources_inv[OF c] newResult_facts(1) have "uniqueIcons collected" by blast
  with generateIconFont_effect[OF g] uniqueIcons_identity[of r collected] have "uniqueIcons r"
    by simp
  with out show ?thesis by simp
qed


section \<open>Evaluating the model\<close>

lemma hexDigitChar_simps:
  "hexDigitChar 0 = CHR ''0''" "hexDigitChar 1 = CHR ''1''" "hexDigitChar 2 = CHR ''2''"
  "hexDigitChar 3 = CHR ''3''" "hexDigitChar 4 = CHR ''4''" "hexDigitChar 5 = CHR ''5''"
  "hexDigitChar 6 = CHR ''6''" "hexDigitChar 7 = CHR ''7''" "hexDigitChar 8 = CHR ''8''"
  "hexDigitChar 9 = CHR ''9''" "hexDigitChar 10 = CHR ''a''" "hexDigitChar 11 = CHR ''b''"
  "hexDigitChar 12 = CHR ''c''" "hexDigitChar 13 = CHR ''d''" "hexDigitChar 14 = CHR ''e''"
  "hexDigitChar 15 = CHR ''f''" "hexDigitChar (Suc 0) = CHR ''1''"
  by code_simp+

lemma toHex_numeral:
  "toHex (numeral k) =
     (if (numeral k :: nat) < 16 then [hexDigitChar (numeral k)]
      else toHex (numeral k div 16) @ [hexDigitChar (numeral k mod 16)])"
  by (rule toHex.simps)

lemma toString16_ea01: "toString16 0xea01 = ''ea01''"
  by (simp add: toString16_def toHex_numeral hexDigitChar_simps)

lemma parseNumber_0x41: "parseNumber env (Some ''0x41'') = Num 0x41"
  by (simp add: parseNumber_def parseInt16_def isWhiteSpace_def isHexDigit_def hexDigitValue_def)

lemmas collect_defs = collectManifest_def processNode_def processFile_def processObject_def
  newString_def attrOf_def getUnique_def getUniqueUnicode_def getUnique_loop.simps
  getUniqueUnicode_loop.simps numberToString_numeral digitChar_simps newResult_def nullish_def
  parseNumber_def parseInt16_def isWhiteSpace_def isHexDigit_def hexDigitValue_def
  codePointAt0_def exampleEnv_def exampleSources_def manifestText_def
  manifestNode_def svgNode_def namedNode_def explicitNode_def Let_def

lemmas generate_defs = generateIconFont_def requestedFlags_def noFlags_def defaultFormats_def
  whenFlag_def svgFontStep_def ttfStep_def eotStep_def woffStep_def woff2Step_def svgStep_def
  jsStep_def cssStep_def htmlStep_def generateSVGFont_def svgFontOptions_def fromCodePoint_def
  iconToString_def manifestOptions_def spread_def orElse_def noOptions_def parseBoolean_def
  generateCSS_def cssRule_def cssHeader_def toString16_def toHex_numeral hexDigitChar_simps

lemma run_manifest_collect:
  "\<exists>r. collectManifest exampleEnv manifestNode ''icon.iconfont'' (newResult (Num 0xea01)) = Inr r
     \<and> processChildren exampleEnv ''icon.iconfont'' [namedNode, namedNode] (newResult (Num 0xea01)) = Inr r
     \<and> map iconName (icons r) = [Some ''icon'', Some ''icon-2'']
     \<and> map className (icons r) = [Some ''icon'', Some ''icon-2'']
     \<and> map unicode (icons r) = [Some 0xea01, Some 0xea02]
     \<and> map autoUnicode (icons r) = [Some True, Some True]"
  by (simp add: collect_defs)

lemma run_sources_collect:
  "\<exists>r. processSources exampleEnv exampleSources (newResult (Num 0xea01)) = Inr r
     \<and> map iconName (icons r) = [Some ''a'', Some ''b'']
     \<and> map unicode (icons r) = [Some 0xea01, Some 0xea02]"
  by (simp add: collect_defs)

lemma run_file:
  "\<exists>r. processFile exampleEnv ''a.svg'' (newResult (Num 0xea01)) = Inr r
     \<and> processFiles exampleEnv [''a.svg''] (newResult (Num 0xea01)) = Inr r
     \<and> map iconName (icons r) = [Some ''a'']"
  by (simp add: collect_defs)

lemma run_manifest_empty:
  "\<exists>r. compileIconFont exampleEnv manifestText ''icon.iconfont'' (Some []) None = Inr r
     \<and> map iconName (icons r) = [Some ''icon'', Some ''icon-2'']"
  apply (simp add: compileIconFont_def collect_defs)
  apply (simp add: generate_defs)
  done

lemma run_sources_empty:
  "\<exists>r. compileIconFontFromSources exampleEnv exampleSources (Some []) None = Inr r
     \<and> map iconName (icons r) = [Some ''a'', Some ''b'']"
  apply (simp add: compileIconFontFromSources_def collect_defs)
  apply (simp add: generate_defs)
  done

lemma run_generate_woff2:
  "\<exists>r. generateIconFont exampleEnv (newResult (Num 0xea01)) [Eot, Woff2, Ttf, Woff2] noOptions = Inr r
     \<and> generated r = [SvgFont, Ttf, Eot, Woff2]"
  by (simp add: generate_defs newResult_def exampleEnv_def Let_def)


lemma run_manifest_woff2:
  "\<exists>r. compileIconFont exampleEnv manifestText ''icon.iconfont'' (Some [Woff2]) None = Inr r
     \<and> svgFont r = Some ''<svg></svg>'' \<and> ttf r = Some [1] \<and> woff2 r = Some [4, 1]"
  apply (simp add: compileIconFont_def collect_defs)
  apply (simp add: generate_defs)
  done

lemma run_sources_woff2:
  "\<exists>r. compileIconFontFromSources exampleEnv exampleSources (Some [Woff2]) None = Inr r
     \<and> svgFont r = Some ''<svg></svg>'' \<and> ttf r = Some [1] \<and> woff2 r = Some [4, 1]"
  apply (simp add: compileIconFontFromSources_def collect_defs)
  apply (simp add: generate_defs)
  done

lemma count_filter_distinct:
  "distinct xs \<Longrightarrow> count_list (filter P xs) a = (if a \<in> set xs \<and> P a then 1 else 0)"
  by (induction xs) auto

lemma count_generationOrder:
  "count_list (filter P generationOrder) a = (if P a then 1 else 0)"
proof -
  have "distinct generationOrder" "a \<in> set generationOrder"
    by (cases a; simp add: generationOrder_def)+
  then show ?thesis by (simp add: count_filter_distinct)
qed

lemma activated_Woff2: "activated [Woff2] a = (a = SvgFont \<or> a = Ttf \<or> a = Woff2)"
  by (cases a; simp add: activated_def dependencyChain_def)

lemma has_woff2_only:
  assumes "\<And>a. has a r = activated [Woff2] a"
  shows "svgFont r \<noteq> None \<and> ttf r \<noteq> None \<and> woff2 r \<noteq> None \<and> eot r = None \<and> woff r = None
     \<and> css r = None \<and> html r = None \<and> js r = None \<and> svg r = None"
  using assms[of SvgFont] assms[of Ttf] assms[of Woff2] assms[of Eot] assms[of Woff]
    assms[of Css] assms[of Html] assms[of Js] assms[of Svg]
  by (simp add: activated_Woff2)

lemma whenFlag_True: "whenFlag True step (Inr g) = step g"
  by (simp add: whenFlag_def)

lemma whenFlag_False: "whenFlag False step s = s"
  by (cases s) (simp_all add: whenFlag_def)

lemma whenFlag_Inl: "whenFlag b step (Inl e) = Inl e"
  by (simp add: whenFlag_def)

lemma generateIconFont_woff2:
  "generateIconFont env r0 [Woff2] opts =
     (case whenFlag True (woff2Step env)
        (whenFlag True (ttfStep env) (whenFlag True (svgFontStep env) (Inr (r0, opts)))) of
        Inl e \<Rightarrow> Inl e
      | Inr (result, options) \<Rightarrow> Inr result)"
  by (simp add: generateIconFont_def requestedFlags_def noFlags_def Let_def whenFlag_False)


lemma generateIconFont_woff2_content:
  assumes "generateIconFont env r0 [Woff2] opts = Inr r"
  shows "\<exists>s t w topts. svgFont r = Some s \<and> ttf r = Some t \<and> woff2 r = Some w
     \<and> svg2ttf env s topts = Inr t \<and> wawoff2_compress env t = Inr w"
proof -
  let ?S1 = "svgFontStep env (r0, opts)"
  from assms have run: "(case whenFlag True (woff2Step env)
        (whenFlag True (ttfStep env) (whenFlag True (svgFontStep env) (Inr (r0, opts)))) of
        Inl e \<Rightarrow> Inl e
      | Inr (result, options) \<Rightarrow> Inr result) = Inr r"
    by (simp only: generateIconFont_woff2)
  obtain g1 where g1: "?S1 = Inr g1"
  proof (cases ?S1)
    case (Inl e)
    with run show ?thesis by (simp add: whenFlag_True whenFlag_Inl)
  next
    case (Inr g)
    then show ?thesis by (rule that)
  qed
  obtain g2 where g2: "ttfStep env g1 = Inr g2"
  proof (cases "ttfStep env g1")
    case (Inl e)
    with run g1 show ?thesis by (simp add: whenFlag_True whenFlag_Inl)
  next
    case (Inr g)
    then show ?thesis by (rule that)
  qed
  obtain g3 where g3: "woff2Step env g2 = Inr g3"
  proof (cases "woff2Step env g2")
    case (Inl e)
    with run g1 g2 show ?thesis by (simp add: whenFlag_True)
  next
    case (Inr g)
    then show ?thesis by (rule that)
  qed
  from run g1 g2 g3 have r: "fst g3 = r"
    by (cases g3) (simp add: whenFlag_True)
  obtain r1 o1 where p1: "g1 = (r1, o1)" by (cases g1)
  obtain r2 o2 where p2: "g2 = (r2, o2)" by (cases g2)
  from g1 p1 obtain s where s: "svgFont r1 = Some s"
    by (cases "generateSVGFont env (icons r0) opts") (auto simp add: svgFontStep_def)
  from g2 p1 p2 s obtain t where t: "svg2ttf env s (ttfOption o1) = Inr t" "ttf r2 = Some t"
    "svgFont r2 = Some s"
    by (cases "svg2ttf env s (ttfOption o1)") (auto simp add: ttfStep_def)
  from g3 p2 t r obtain w where "wawoff2_compress env t = Inr w" "woff2 r = Some w"
    "ttf r = Some t" "svgFont r = Some s"
    by (cases "wawoff2_compress env t") (auto simp add: woff2Step_def)
  with t(1) show ?thesis by blast
qed

lemma run_manifest_default:
  "\<exists>r. compileIconFont exampleEnv manifestText ''icon.iconfont'' None None = Inr r
     \<and> map iconName (icons r) = [Some ''icon'', Some ''icon-2'']
     \<and> map unicode (icons r) = [Some 0xea01, Some 0xea02]
     \<and> map autoUnicode (icons r) = [Some True, Some True]
     \<and> generated r = [SvgFont, Ttf, Eot, Woff, Woff2, Css, Html]"
  apply (simp add: compileIconFont_def collect_defs)
  apply (simp add: generate_defs)
  done

lemma run_sources_default:
  "\<exists>r. compileIconFontFromSources exampleEnv exampleSources None None = Inr r
     \<and> generated r = [SvgFont, Ttf, Eot, Woff, Woff2, Css, Html]"
  apply (simp add: compileIconFontFromSources_def collect_defs)
  apply (simp add: generate_defs)
  done

lemma activated_default:
  "activated defaultFormats a = (a \<noteq> Svg \<and> a \<noteq> Js)"
  by (cases a; simp add: activated_def defaultFormats_def dependencyChain_def)

lemma default_outputs:
  assumes "\<And>a. has a r = activated defaultFormats a"
    and "generated r = filter (activated defaultFormats) generationOrder"
  shows "svgFont r \<noteq> None \<and> ttf r \<noteq> None \<and> eot r \<noteq> None \<and> woff r \<noteq> None \<and> woff2 r \<noteq> None
     \<and> css r \<noteq> None \<and> html r \<noteq> None \<and> svg r = None \<and> js r = None
     \<and> generated r = [SvgFont, Ttf, Eot, Woff, Woff2, Css, Html]"
  using assms(1)[of SvgFont] assms(1)[of Ttf] assms(1)[of Woff2] assms(1)[of Eot] assms(1)[of Woff]
    assms(1)[of Css] assms(1)[of Html] assms(1)[of Js] assms(1)[of Svg] assms(2)
  by (simp add: activated_default generationOrder_def)

lemma cssRules_mem:
  "cssRules p xs = Inr rules \<Longrightarrow> x \<in> set xs \<Longrightarrow> \<exists>rule. cssRule p x = Inr rule \<and> rule \<in> set rules"
proof (induction xs arbitrary: rules)
  case Nil
  then show ?case by simp
next
  case (Cons y ys)
  from Cons.prems(1) obtain rule rest where parts: "cssRule p y = Inr rule"
    "cssRules p ys = Inr rest" "rules = rule # rest"
    by (auto split: sum.splits)
  show ?case
  proof (cases "x = y")
    case True
    with parts show ?thesis by auto
  next
    case False
    with Cons.prems(2) have "x \<in> set ys" by simp
    from Cons.IH[OF parts(2) this] parts(3) show ?thesis by auto
  qed
qed

lemma join_sublist: "rule \<in> set rules \<Longrightarrow> sublist rule (join sep rules)"
proof (induction sep rules rule: join.induct)
  case (1 sep)
  then show ?case by simp
next
  case (2 sep x)
  then show ?case by simp
next
  case (3 sep x y rest)
  show ?case
  proof (cases "rule = x")
    case True
    then show ?thesis by (simp add: sublist_append_rightI)
  next
    case False
    with "3.prems" have "rule \<in> set (y # rest)" by simp
    from "3.IH"[OF this] obtain ps ss where "join sep (y # rest) = ps @ rule @ ss"
      by (auto simp add: sublist_def)
    then have "join sep (x # y # rest) = (x @ sep @ ps) @ rule @ ss" by simp
    then show ?thesis unfolding sublist_def by blast
  qed
qed

lemma warn_rule:
  assumes "className icon = Some ''warn''" and "unicode icon = Some 0xea01"
  shows \<open>cssRule [] icon = Inr (''.warn:before { content: "'' @ [CHR 0x5C] @ ''ea01"; }'')\<close>
  using assms by (simp add: cssRule_def toString16_ea01)

lemma warn_sheet:
  \<open>generateCSS exampleEnv [warnIcon] (noOptions\<lparr>classNamePrefix := Some []\<rparr>) =
     Inr (cssHeader [] ''icon'' ''1'' @ ''.warn:before { content: "'' @ [CHR 0x5C] @ ''ea01"; }'')\<close>
  by (simp add: generateCSS_def noOptions_def exampleEnv_def warnIcon_def cssRule_def
      toString16_ea01 numberToString.simps digitChar_simps)

lemma explicit_registers_0x41:
  assumes "name e = Some ''svg''" and "attrOf e ''unicode'' = Some ''0x41''"
  shows "0x41 |\<in>| unicodes (processNode env e p r)"
proof -
  obtain n N where n: "getUnique (case attrOf e ''id'' of Some v \<Rightarrow> v | None \<Rightarrow> getName env p)
      (iconNames r) = (n, N)"
    by (cases "getUnique (case attrOf e ''id'' of Some v \<Rightarrow> v | None \<Rightarrow> getName env p)
      (iconNames r)")
  obtain c C where c: "getUnique (case attrOf e ''class'' of Some v \<Rightarrow> v | None \<Rightarrow> n)
      (classNames r) = (c, C)"
    by (cases "getUnique (case attrOf e ''class'' of Some v \<Rightarrow> v | None \<Rightarrow> n) (classNames r)")
  from getUniqueUnicode_least[where candidate = "Num 0x41" and S = "unicodes r", OF refl]
  obtain u where u: "getUniqueUnicode (Num 0x41) (unicodes r) = (u, finsert u (unicodes r))"
    "0x41 \<le> u" "\<forall>k. 0x41 \<le> k \<and> k < u \<longrightarrow> k |\<in>| unicodes r"
    by auto
  have "0x41 |\<in>| finsert u (unicodes r)"
  proof (cases "u = 0x41")
    case True
    then show ?thesis by simp
  next
    case False
    with u(2,3) show ?thesis by simp
  qed
  with assms n c u(1) show ?thesis
    by (simp add: processNode_def parseNumber_0x41)
qed

lemma auto_allocation:
  assumes "name a = Some ''svg''" and "attrOf a ''unicode'' = None"
  shows "\<exists>u new. getUniqueUnicode (startUnicode r) (unicodes r) = (u, finsert u (unicodes r))
     \<and> icons (processNode env a q r) = icons r @ [new]
     \<and> unicode new = Some u \<and> autoUnicode new = Some True"
proof -
  obtain n N where n: "getUnique (case attrOf a ''id'' of Some v \<Rightarrow> v | None \<Rightarrow> getName env q)
      (iconNames r) = (n, N)"
    by (cases "getUnique (case attrOf a ''id'' of Some v \<Rightarrow> v | None \<Rightarrow> getName env q)
      (iconNames r)")
  obtain c C where c: "getUnique (case attrOf a ''class'' of Some v \<Rightarrow> v | None \<Rightarrow> n)
      (classNames r) = (c, C)"
    by (cases "getUnique (case attrOf a ''class'' of Some v \<Rightarrow> v | None \<Rightarrow> n) (classNames r)")
  obtain u U where u: "getUniqueUnicode (startUnicode r) (unicodes r) = (u, U)"
    by (cases "getUniqueUnicode (startUnicode r) (unicodes r)")
  from getUniqueUnicode_eqD[OF u] assms n c u show ?thesis
    by (simp add: processNode_def)
qed

lemma run_cursor:
  "\<exists>r2 r3.
     processChildren exampleEnv ''icon.iconfont'' [svgNode, explicitNode] (newResult (Num 0x41))
       = Inr r2
     \<and> startUnicode r2 = Num 0x41
     \<and> processChildren exampleEnv ''icon.iconfont'' [svgNode, explicitNode, svgNode]
         (newResult (Num 0x41)) = Inr r3
     \<and> map unicode (icons r3) = [Some 0x41, Some 0x42, Some 0x43]
     \<and> map autoUnicode (icons r3) = [Some True, None, Some True]"
  by (simp add: collect_defs)

lemma run_explicit_then_auto:
  "map unicode (icons (processNode exampleEnv svgNode ''icon.iconfont''
      (processNode exampleEnv explicitNode ''icon.iconfont'' (newResult (Num 0x41)))))
     = [Some 0x41, Some 0x42]
   \<and> startUnicode (processNode exampleEnv explicitNode ''icon.iconfont'' (newResult (Num 0x41)))
     = Num 0x41"
  by (simp add: collect_defs)

section \<open>The claims\<close>

text \<open>
  C1. After collection the icons of a compile run (either entry point) have pairwise
  distinct \<open>iconName\<close>, \<open>className\<close> and \<open>unicode\<close> values, and the three registry sets
  only grow: every operation of the run that touches the result returns one whose sets
  contain the sets it was given.
\<close>

theorem registry_invariant:
  "(collectManifest env rootNode path (newResult start) = Inr ra \<longrightarrow> uniqueIcons ra)
   \<and> (processSources env sources (newResult start) = Inr rb \<longrightarrow> uniqueIcons rb)
   \<and> (compileIconFont env content path formats options = Inr rc \<longrightarrow> uniqueIcons rc)
   \<and> (compileIconFontFromSources env sources formats options = Inr rd \<longrightarrow> uniqueIcons rd)
   \<and> grows r0 (processNode env node path r0)
   \<and> grows r0 (processObject env path markup r0)
   \<and> (processFile env fpath r0 = Inr r1 \<longrightarrow> grows r0 r1)
   \<and> (processFiles env fpaths r0 = Inr r2 \<longrightarrow> grows r0 r2)
   \<and> (processChildren env path nodes r0 = Inr r3 \<longrightarrow> grows r0 r3)
   \<and> (processSources env sources r0 = Inr r4 \<longrightarrow> grows r0 r4)
   \<and> (generateIconFont env r0 fs opts = Inr r5 \<longrightarrow> grows r0 r5)"
proof (intro conjI impI)
  assume "collectManifest env rootNode path (newResult start) = Inr ra"
  from collectManifest_facts(3)[OF this] newResult_facts(1) show "uniqueIcons ra" by blast
next
  assume "processSources env sources (newResult start) = Inr rb"
  from processSources_inv[OF this] newResult_facts(1) show "uniqueIcons rb" by blast
next
  assume "compileIconFont env content path formats options = Inr rc"
  from compileIconFont_outputs[OF this] show "uniqueIcons rc" by simp
next
  assume "compileIconFontFromSources env sources formats options = Inr rd"
  from compileIconFontFromSources_outputs[OF this] show "uniqueIcons rd" by simp
next
  show "grows r0 (processNode env node path r0)" by (rule processNode_grows)
next
  show "grows r0 (processObject env path markup r0)" by (rule processObject_grows)
next
  assume "processFile env fpath r0 = Inr r1"
  then show "grows r0 r1" by (rule processFile_grows)
next
  assume "processFiles env fpaths r0 = Inr r2"
  then show "grows r0 r2" by (rule processFiles_grows)
next
  assume "processChildren env path nodes r0 = Inr r3"
  then show "grows r0 r3" by (rule processChildren_grows)
next
  assume "processSources env sources r0 = Inr r4"
  then show "grows r0 r4" by (rule processSources_grows)
next
  assume "generateIconFont env r0 fs opts = Inr r5"
  from generateIconFont_effect[OF this] grows_identity[of r5 r0] show "grows r0 r5"
    by simp
qed

theorem registry_invariant_witness:
  "\<exists>ra rb rc rd r1 r5.
     collectManifest exampleEnv manifestNode ''icon.iconfont'' (newResult (Num 0xea01)) = Inr ra
     \<and> processChildren exampleEnv ''icon.iconfont'' [namedNode, namedNode] (newResult (Num 0xea01))
         = Inr ra
     \<and> uniqueIcons ra \<and> grows (newResult (Num 0xea01)) ra
     \<and> processSources exampleEnv exampleSources (newResult (Num 0xea01)) = Inr rb
     \<and> uniqueIcons rb \<and> grows (newResult (Num 0xea01)) rb
     \<and> compileIconFont exampleEnv manifestText ''icon.iconfont'' (Some []) None = Inr rc
     \<and> uniqueIcons rc
     \<and> compileIconFontFromSources exampleEnv exampleSources (Some []) None = Inr rd
     \<and> uniqueIcons rd
     \<and> processFile exampleEnv ''a.svg'' (newResult (Num 0xea01)) = Inr r1
     \<and> processFiles exampleEnv [''a.svg''] (newResult (Num 0xea01)) = Inr r1
     \<and> grows (newResult (Num 0xea01)) r1
     \<and> generateIconFont exampleEnv (newResult (Num 0xea01)) [Eot, Woff2, Ttf, Woff2] noOptions
         = Inr r5
     \<and> grows (newResult (Num 0xea01)) r5"
proof -
  from run_manifest_collect obtain ra where
    ra: "collectManifest exampleEnv manifestNode ''icon.iconfont'' (newResult (Num 0xea01)) = Inr ra"
      "processChildren exampleEnv ''icon.iconfont'' [namedNode, namedNode] (newResult (Num 0xea01))
         = Inr ra"
    by blast
  from run_sources_collect obtain rb where
    rb: "processSources exampleEnv exampleSources (newResult (Num 0xea01)) = Inr rb"
    by blast
  from run_manifest_empty obtain rc where
    rc: "compileIconFont exampleEnv manifestText ''icon.iconfont'' (Some []) None = Inr rc"
    by blast
  from run_sources_empty obtain rd where
    rd: "compileIconFontFromSources exampleEnv exampleSources (Some []) None = Inr rd"
    by blast
  from run_file obtain r1 where
    r1: "processFile exampleEnv ''a.svg'' (newResult (Num 0xea01)) = Inr r1"
      "processFiles exampleEnv [''a.svg''] (newResult (Num 0xea01)) = Inr r1"
    by blast
  from run_generate_woff2 obtain r5 where
    r5: "generateIconFont exampleEnv (newResult (Num 0xea01)) [Eot, Woff2, Ttf, Woff2] noOptions
         = Inr r5"
    by blast
  from ra rb rc rd r1 r5
    registry_invariant[where env = exampleEnv and rootNode = manifestNode
      and path = "''icon.iconfont''" and start = "Num 0xea01" and ra = ra
      and sources = exampleSources and rb = rb and content = manifestText
      and formats = "Some []" and options = None and rc = rc and rd = rd
      and ?r0.0 = "newResult (Num 0xea01)" and fpath = "''a.svg''" and ?r1.0 = r1
      and fpaths = "[''a.svg'']" and ?r2.0 = r1 and nodes = "[namedNode, namedNode]"
      and ?r3.0 = ra and ?r4.0 = rb and fs = "[Eot, Woff2, Ttf, Woff2]" and opts = noOptions
      and ?r5.0 = r5]
  show ?thesis by blast
qed

text \<open>
  C2. For every candidate string and every set: when the candidate is absent from the
  set, \<^verbatim>\<open>getUnique\<close> adds it and returns it unchanged; otherwise it returns the
  candidate followed by \<^verbatim>\<open>-i\<close> for the smallest \<open>i \<ge> 2\<close> whose string is absent,
  and adds that. The returned value was not in the set at call time.
\<close>

theorem getUnique_correct:
  "\<exists>r. getUnique content S = (r, finsert r S) \<and> r |\<notin>| S \<and>
     (content |\<notin>| S \<longrightarrow> r = content) \<and>
     (content |\<in>| S \<longrightarrow>
        (\<exists>i\<ge>2. r = content @ ''-'' @ numberToString i \<and>
           (\<forall>j. 2 \<le> j \<and> j < i \<longrightarrow> content @ ''-'' @ numberToString j |\<in>| S)))"
  by (rule getUnique_cases)

theorem getUnique_correct_witness:
  "''a'' |\<in>| {|''a'', ''a-2''|} \<and> ''b'' |\<notin>| {|''a'', ''a-2''|} \<and>
   getUnique ''a'' {|''a'', ''a-2''|} = (''a-3'', {|''a-3'', ''a'', ''a-2''|}) \<and>
   getUnique ''b'' {|''a'', ''a-2''|} = (''b'', {|''b'', ''a'', ''a-2''|})"
  using getUnique_correct[of "''a''" "{|''a'', ''a-2''|}"]
    getUnique_correct[of "''b''" "{|''a'', ''a-2''|}"]
  by (simp add: getUnique_def Let_def getUnique_loop.simps numberToString_numeral digitChar_simps)

text \<open>
  C3 (as stated). \<^verbatim>\<open>getUniqueUnicode\<close> is claimed to be total, for any input. The
  candidate is a double: at \<open>2^53\<close>, and at \<^verbatim>\<open>Infinity\<close>, \<^verbatim>\<open>startUnicode++\<close> leaves
  the value as it was, so with such a candidate already in the set the loop never
  ends and the call does not return. The manifest reaches this input with two nodes
  \<^verbatim>\<open><svg unicode="0x20000000000000"/>\<close>.
\<close>

theorem getUniqueUnicode_double_counterexample:
  "getUniqueUnicode_double (DNum (2 ^ 53)) {|DNum (2 ^ 53)|} = None \<and>
   getUniqueUnicode_double DInfinity {|DInfinity|} = None"
  using getUniqueUnicode_double_stuck by simp

text \<open>
  C3 (amended). For every set of numbers that does not hold \<open>2^53\<close>, in particular for
  every set of code points, and every candidate that is \<^verbatim>\<open>NaN\<close> (or \<^verbatim>\<open>undefined\<close>)
  or an integer of magnitude at most \<open>2^53\<close>, \<^verbatim>\<open>getUniqueUnicode\<close> returns: it starts
  from \<open>0xEA01\<close> when the candidate is \<^verbatim>\<open>NaN\<close>, and its result is the smallest integer
  from there on that is absent from the set, which it adds. Any other candidate that is
  a number (a fraction, an infinity) is returned as it is when the set does not hold
  it. Whenever the call returns, for any candidate and any set, the value returned was
  absent from the set and the new set is the old one with that value added.
\<close>

theorem getUniqueUnicode_double_correct:
  "(DNum (2 ^ 53) |\<notin>| S \<and>
      (isNaN candidate \<and> start = 0xea01 \<or> candidate = DNum (of_int start) \<and> \<bar>start\<bar> \<le> 2 ^ 53) \<longrightarrow>
      (\<exists>u. getUniqueUnicode_double candidate S = Some (DNum (of_int u), finsert (DNum (of_int u)) S) \<and>
           DNum (of_int u) |\<notin>| S \<and> start \<le> u \<and>
           (\<forall>k. start \<le> k \<and> k < u \<longrightarrow> DNum (of_int k) |\<in>| S))) \<and>
   (\<not> isNaN candidate \<and> candidate |\<notin>| S \<longrightarrow>
      getUniqueUnicode_double candidate S = Some (candidate, finsert candidate S)) \<and>
   (\<forall>u S'. getUniqueUnicode_double candidate S = Some (u, S') \<longrightarrow> u |\<notin>| S \<and> S' = finsert u S)"
proof -
  have a: "\<exists>u. getUniqueUnicode_double candidate S = Some (DNum (of_int u), finsert (DNum (of_int u)) S) \<and>
           DNum (of_int u) |\<notin>| S \<and> start \<le> u \<and>
           (\<forall>k. start \<le> k \<and> k < u \<longrightarrow> DNum (of_int k) |\<in>| S)"
    if "DNum (2 ^ 53) |\<notin>| S"
      "isNaN candidate \<and> start = 0xea01 \<or> candidate = DNum (of_int start) \<and> \<bar>start\<bar> \<le> 2 ^ 53"
    using that(2) that(1) by (rule getUniqueUnicode_double_least)
  have b: "getUniqueUnicode_double candidate S = Some (candidate, finsert candidate S)"
    if "\<not> isNaN candidate" "candidate |\<notin>| S"
    using that by (rule getUniqueUnicode_double_absent)
  have c: "u |\<notin>| S \<and> S' = finsert u S"
    if "getUniqueUnicode_double candidate S = Some (u, S')" for u S'
    using that by (rule getUniqueUnicode_double_fresh)
  from a b c show ?thesis by blast
qed

theorem getUniqueUnicode_double_correct_witness:
  "getUniqueUnicode_double DNaN {|DNum 0xea01, DNum 0xea02|} =
     Some (DNum 0xea03, {|DNum 0xea03, DNum 0xea01, DNum 0xea02|}) \<and>
   getUniqueUnicode_double (DNum (2 ^ 53 - 1)) {|DNum (2 ^ 53 - 1)|} =
     Some (DNum (2 ^ 53), {|DNum (2 ^ 53), DNum (2 ^ 53 - 1)|}) \<and>
   getUniqueUnicode_double (DNum (1 / 2)) {|DNum 0xea01|} =
     Some (DNum (1 / 2), {|DNum (1 / 2), DNum 0xea01|})"
  using getUniqueUnicode_double_correct[where candidate = DNaN and start = "0xea01"
      and S = "{|DNum 0xea01, DNum 0xea02|}"]
    getUniqueUnicode_double_correct[where candidate = "DNum (of_int (2 ^ 53 - 1))" and start = "2 ^ 53 - 1"
      and S = "{|DNum (2 ^ 53 - 1)|}"]
    getUniqueUnicode_double_correct[where candidate = "DNum (1 / 2)" and S = "{|DNum 0xea01|}"]
  by (simp add: getUniqueUnicode_double_def Let_def getUniqueUnicode_double_loop.simps
      roundDouble_numeral)

text \<open>
  C4. A compile run whose requested formats are exactly \<^verbatim>\<open>["woff2"]\<close> returns a
  result with the \<open>svgFont\<close>, \<open>ttf\<close> and \<open>woff2\<close> fields set and \<open>eot\<close>, \<open>woff\<close>,
  \<open>css\<close>, \<open>html\<close>, \<open>js\<close> and \<open>svg\<close> unset; \<open>ttf\<close> holds what \<^verbatim>\<open>svg2ttf\<close> returned
  for the font container and \<open>woff2\<close> the compression of \<open>ttf\<close>. For any list of requested formats, each
  artifact on the dependency chain of a requested format is generated exactly once, and
  no other artifact is generated.
\<close>

theorem woff2_only:
  "(compileIconFont env content path (Some [Woff2]) options = Inr r \<longrightarrow>
      svgFont r \<noteq> None \<and> ttf r \<noteq> None \<and> woff2 r \<noteq> None \<and> eot r = None \<and> woff r = None
      \<and> css r = None \<and> html r = None \<and> js r = None \<and> svg r = None
      \<and> (\<exists>s t w topts. svgFont r = Some s \<and> ttf r = Some t \<and> woff2 r = Some w
            \<and> svg2ttf env s topts = Inr t \<and> wawoff2_compress env t = Inr w))
   \<and> (compileIconFontFromSources env sources (Some [Woff2]) options = Inr r' \<longrightarrow>
      svgFont r' \<noteq> None \<and> ttf r' \<noteq> None \<and> woff2 r' \<noteq> None \<and> eot r' = None \<and> woff r' = None
      \<and> css r' = None \<and> html r' = None \<and> js r' = None \<and> svg r' = None
      \<and> (\<exists>s t w topts. svgFont r' = Some s \<and> ttf r' = Some t \<and> woff2 r' = Some w
            \<and> svg2ttf env s topts = Inr t \<and> wawoff2_compress env t = Inr w))
   \<and> (generated r0 = [] \<and> generateIconFont env r0 formats opts = Inr r1 \<longrightarrow>
      (\<forall>a. count_list (generated r1) a = (if activated formats a then 1 else 0)))"
proof -
  have a: "compileIconFont env content path (Some [Woff2]) options = Inr r \<longrightarrow>
      svgFont r \<noteq> None \<and> ttf r \<noteq> None \<and> woff2 r \<noteq> None \<and> eot r = None \<and> woff r = None
      \<and> css r = None \<and> html r = None \<and> js r = None \<and> svg r = None
      \<and> (\<exists>s t w topts. svgFont r = Some s \<and> ttf r = Some t \<and> woff2 r = Some w
            \<and> svg2ttf env s topts = Inr t \<and> wawoff2_compress env t = Inr w)"
  proof
    assume run: "compileIconFont env content path (Some [Woff2]) options = Inr r"
    from compileIconFont_outputs[OF run] have "\<And>a. has a r = activated [Woff2] a" by simp
    then have "svgFont r \<noteq> None \<and> ttf r \<noteq> None \<and> woff2 r \<noteq> None \<and> eot r = None \<and> woff r = None
      \<and> css r = None \<and> html r = None \<and> js r = None \<and> svg r = None"
      by (rule has_woff2_only)
    moreover from compileIconFont_phases[OF run] obtain collected opts' where
      "generateIconFont env collected [Woff2] opts' = Inr r"
      by auto
    note generateIconFont_woff2_content[OF this]
    ultimately show "svgFont r \<noteq> None \<and> ttf r \<noteq> None \<and> woff2 r \<noteq> None \<and> eot r = None \<and> woff r = None
      \<and> css r = None \<and> html r = None \<and> js r = None \<and> svg r = None
      \<and> (\<exists>s t w topts. svgFont r = Some s \<and> ttf r = Some t \<and> woff2 r = Some w
            \<and> svg2ttf env s topts = Inr t \<and> wawoff2_compress env t = Inr w)"
      by simp
  qed
  have b: "compileIconFontFromSources env sources (Some [Woff2]) options = Inr r' \<longrightarrow>
      svgFont r' \<noteq> None \<and> ttf r' \<noteq> None \<and> woff2 r' \<noteq> None \<and> eot r' = None \<and> woff r' = None
      \<and> css r' = None \<and> html r' = None \<and> js r' = None \<and> svg r' = None
      \<and> (\<exists>s t w topts. svgFont r' = Some s \<and> ttf r' = Some t \<and> woff2 r' = Some w
            \<and> svg2ttf env s topts = Inr t \<and> wawoff2_compress env t = Inr w)"
  proof
    assume run: "compileIconFontFromSources env sources (Some [Woff2]) options = Inr r'"
    from compileIconFontFromSources_outputs[OF run] have "\<And>a. has a r' = activated [Woff2] a"
      by simp
    then have "svgFont r' \<noteq> None \<and> ttf r' \<noteq> None \<and> woff2 r' \<noteq> None \<and> eot r' = None \<and> woff r' = None
      \<and> css r' = None \<and> html r' = None \<and> js r' = None \<and> svg r' = None"
      by (rule has_woff2_only)
    moreover from compileIconFontFromSources_phases[OF run] obtain collected opts' where
      "generateIconFont env collected [Woff2] opts' = Inr r'"
      by auto
    note generateIconFont_woff2_content[OF this]
    ultimately show "svgFont r' \<noteq> None \<and> ttf r' \<noteq> None \<and> woff2 r' \<noteq> None \<and> eot r' = None \<and> woff r' = None
      \<and> css r' = None \<and> html r' = None \<and> js r' = None \<and> svg r' = None
      \<and> (\<exists>s t w topts. svgFont r' = Some s \<and> ttf r' = Some t \<and> woff2 r' = Some w
            \<and> svg2ttf env s topts = Inr t \<and> wawoff2_compress env t = Inr w)"
      by simp
  qed
  have c: "generated r0 = [] \<and> generateIconFont env r0 formats opts = Inr r1 \<longrightarrow>
      (\<forall>a. count_list (generated r1) a = (if activated formats a then 1 else 0))"
  proof
    assume "generated r0 = [] \<and> generateIconFont env r0 formats opts = Inr r1"
    then have "generated r1 = filter (activated formats) generationOrder"
      using generateIconFont_effect[of env r0 formats opts r1] by simp
    then show "\<forall>a. count_list (generated r1) a = (if activated formats a then 1 else 0)"
      by (simp add: count_generationOrder)
  qed
  from a b c show ?thesis by blast
qed

theorem woff2_only_witness:
  "\<exists>r r' r1.
     compileIconFont exampleEnv manifestText ''icon.iconfont'' (Some [Woff2]) None = Inr r
     \<and> svgFont r = Some ''<svg></svg>'' \<and> ttf r = Some [1] \<and> woff2 r = Some [4, 1]
     \<and> eot r = None \<and> woff r = None \<and> css r = None \<and> html r = None \<and> js r = None \<and> svg r = None
     \<and> compileIconFontFromSources exampleEnv exampleSources (Some [Woff2]) None = Inr r'
     \<and> svgFont r' \<noteq> None \<and> ttf r' \<noteq> None \<and> woff2 r' \<noteq> None \<and> eot r' = None \<and> woff r' = None
     \<and> css r' = None \<and> html r' = None \<and> js r' = None \<and> svg r' = None
     \<and> generated (newResult (Num 0xea01)) = []
     \<and> generateIconFont exampleEnv (newResult (Num 0xea01)) [Eot, Woff2, Ttf, Woff2] noOptions
         = Inr r1
     \<and> generated r1 = [SvgFont, Ttf, Eot, Woff2]
     \<and> count_list (generated r1) Ttf = 1 \<and> count_list (generated r1) Css = 0"
proof -
  from run_manifest_woff2 obtain r where
    r: "compileIconFont exampleEnv manifestText ''icon.iconfont'' (Some [Woff2]) None = Inr r"
      "svgFont r = Some ''<svg></svg>''" "ttf r = Some [1]" "woff2 r = Some [4, 1]"
    by blast
  from run_sources_woff2 obtain r' where
    r': "compileIconFontFromSources exampleEnv exampleSources (Some [Woff2]) None = Inr r'"
    by blast
  from run_generate_woff2 obtain r1 where
    r1: "generateIconFont exampleEnv (newResult (Num 0xea01)) [Eot, Woff2, Ttf, Woff2] noOptions
         = Inr r1" "generated r1 = [SvgFont, Ttf, Eot, Woff2]"
    by blast
  have g: "generated (newResult (Num 0xea01)) = []"
    by (simp add: newResult_def)
  from r r' r1 g
    woff2_only[where env = exampleEnv and content = manifestText and path = "''icon.iconfont''"
      and options = None and r = r and sources = exampleSources and r' = r'
      and ?r0.0 = "newResult (Num 0xea01)" and formats = "[Eot, Woff2, Ttf, Woff2]"
      and opts = noOptions and ?r1.0 = r1]
  show ?thesis by auto
qed


text \<open>
  C5. The manifest \<^verbatim>\<open><iconfont><svg name="a"/><svg name="a"/></iconfont>\<close> is claimed
  to yield the icon names \<open>a\<close> and \<open>a-2\<close>. \<^verbatim>\<open>processNode\<close> reads the attribute
  \<^verbatim>\<open>id\<close>, not \<^verbatim>\<open>name\<close>, so for every manifest path both icons are named after the
  manifest file: compiled from \<^verbatim>\<open>icon.iconfont\<close> the names are \<open>icon\<close> and
  \<open>icon-2\<close>. The code points \<open>0xEA01\<close>, \<open>0xEA02\<close> and \<open>autoUnicode\<close> are as claimed.
\<close>

theorem manifest_example_names:
  "(\<exists>r. collectManifest env manifestNode path (newResult (Num 0xea01)) = Inr r
      \<and> map iconName (icons r) = [Some (getName env path), Some (getName env path @ ''-2'')]
      \<and> map unicode (icons r) = [Some 0xea01, Some 0xea02]
      \<and> map autoUnicode (icons r) = [Some True, Some True])
   \<and> (\<exists>r. compileIconFont exampleEnv manifestText ''icon.iconfont'' None None = Inr r
      \<and> map iconName (icons r) = [Some ''icon'', Some ''icon-2'']
      \<and> map unicode (icons r) = [Some 0xea01, Some 0xea02]
      \<and> map autoUnicode (icons r) = [Some True, Some True])"
proof
  show "\<exists>r. collectManifest env manifestNode path (newResult (Num 0xea01)) = Inr r
      \<and> map iconName (icons r) = [Some (getName env path), Some (getName env path @ ''-2'')]
      \<and> map unicode (icons r) = [Some 0xea01, Some 0xea02]
      \<and> map autoUnicode (icons r) = [Some True, Some True]"
    by (simp add: collectManifest_def processNode_def attrOf_def getUnique_def getUniqueUnicode_def
        getUnique_loop.simps getUniqueUnicode_loop.simps numberToString_numeral digitChar_simps
        newResult_def manifestNode_def namedNode_def Let_def)
  from run_manifest_default obtain r where
    "compileIconFont exampleEnv manifestText ''icon.iconfont'' None None = Inr r"
    "map iconName (icons r) = [Some ''icon'', Some ''icon-2'']"
    "map unicode (icons r) = [Some 0xea01, Some 0xea02]"
    "map autoUnicode (icons r) = [Some True, Some True]"
    by auto
  then show "\<exists>r. compileIconFont exampleEnv manifestText ''icon.iconfont'' None None = Inr r
      \<and> map iconName (icons r) = [Some ''icon'', Some ''icon-2'']
      \<and> map unicode (icons r) = [Some 0xea01, Some 0xea02]
      \<and> map autoUnicode (icons r) = [Some True, Some True]"
    by (intro exI[of _ r]) simp
qed

text \<open>
  C6 (as stated). The stylesheet of an icon with class \<open>warn\<close>, code point \<open>0xEA01\<close> and
  an empty prefix is claimed to contain \<^verbatim>\<open>.warn::before { content: "\ea01"; }\<close>. The
  generated rule has a single colon, so that text does not occur.
\<close>

theorem css_double_colon_counterexample:
  \<open>\<exists>sheet. generateCSS exampleEnv [warnIcon] (noOptions\<lparr>classNamePrefix := Some []\<rparr>) = Inr sheet
     \<and> \<not> sublist (''.warn::before { content: "'' @ [CHR 0x5C] @ ''ea01"; }'') sheet\<close>
  unfolding warn_sheet
  by (simp add: cssHeader_def sublist_code prefix_code)

text \<open>
  C6 (amended). For every icon with class \<open>warn\<close> and code point \<open>0xEA01\<close> and an empty
  configured prefix, the rule of the icon is \<^verbatim>\<open>.warn:before { content: "\ea01"; }\<close>,
  with no prefix and no hyphen, and the generated stylesheet contains it.
\<close>

theorem css_rule_single_colon:
  assumes "classNamePrefix options = Some []"
    and "className icon = Some ''warn''" and "unicode icon = Some 0xea01"
    and "icon \<in> set iconList"
    and "generateCSS env iconList options = Inr sheet"
  shows \<open>cssRule [] icon = Inr (''.warn:before { content: "'' @ [CHR 0x5C] @ ''ea01"; }'')
     \<and> sublist (''.warn:before { content: "'' @ [CHR 0x5C] @ ''ea01"; }'') sheet\<close>
proof -
  note rule = warn_rule[OF assms(2,3)]
  from assms(1,5) obtain rules header where rules: "cssRules [] iconList = Inr rules"
    and sheet: "sheet = header @ join [CHR 0x0A] rules"
    by (auto simp add: generateCSS_def Let_def split: sum.splits)
  from cssRules_mem[OF rules assms(4)] rule
  have \<open>''.warn:before { content: "'' @ [CHR 0x5C] @ ''ea01"; }'' \<in> set rules\<close>
    by auto
  from join_sublist[OF this, of "[CHR 0x0A]"] obtain ps ss where
    \<open>join [CHR 0x0A] rules = ps @ (''.warn:before { content: "'' @ [CHR 0x5C] @ ''ea01"; }'') @ ss\<close>
    by (auto simp add: sublist_def)
  with sheet have \<open>sheet = (header @ ps) @ (''.warn:before { content: "'' @ [CHR 0x5C] @ ''ea01"; }'') @ ss\<close>
    by simp
  then have \<open>sublist (''.warn:before { content: "'' @ [CHR 0x5C] @ ''ea01"; }'') sheet\<close>
    unfolding sublist_def by blast
  with rule show ?thesis by simp
qed

theorem css_rule_single_colon_witness:
  \<open>\<exists>sheet. generateCSS exampleEnv [warnIcon] (noOptions\<lparr>classNamePrefix := Some []\<rparr>) = Inr sheet
     \<and> cssRule [] warnIcon = Inr (''.warn:before { content: "'' @ [CHR 0x5C] @ ''ea01"; }'')
     \<and> sublist (''.warn:before { content: "'' @ [CHR 0x5C] @ ''ea01"; }'') sheet\<close>
proof -
  have a: "classNamePrefix (noOptions\<lparr>classNamePrefix := Some []\<rparr>) = Some []"
    "className warnIcon = Some ''warn''" "unicode warnIcon = Some 0xea01"
    "warnIcon \<in> set [warnIcon]"
    by (simp_all add: warnIcon_def)
  from css_rule_single_colon[OF a warn_sheet] warn_sheet show ?thesis by blast
qed


text \<open>
  C7 (as stated). An auto-allocated icon that follows an icon with \<^verbatim>\<open>unicode="0x41"\<close>
  is claimed to receive \<open>0x42\<close> whenever the cursor is at \<open>0x41\<close>. In the sequence
  auto, explicit \<open>0x41\<close>, auto with start \<open>0x41\<close> the explicit icon takes \<open>0x42\<close>, the
  cursor stays at \<open>0x41\<close>, and the last icon receives \<open>0x43\<close>.
\<close>

theorem cursor_counterexample:
  "\<exists>r2 r3.
     processChildren exampleEnv ''icon.iconfont'' [svgNode, explicitNode] (newResult (Num 0x41))
       = Inr r2
     \<and> startUnicode r2 = Num 0x41
     \<and> processChildren exampleEnv ''icon.iconfont'' [svgNode, explicitNode, svgNode]
         (newResult (Num 0x41)) = Inr r3
     \<and> map unicode (icons r3) = [Some 0x41, Some 0x42, Some 0x43]
     \<and> map autoUnicode (icons r3) = [Some True, None, Some True]"
  by (rule run_cursor)

text \<open>
  C7 (amended). Once an icon with \<^verbatim>\<open>unicode="0x41"\<close> has been registered, and whatever
  the collector does afterwards (the registry only grows), an auto-allocated icon
  receives a code point that is not \<open>0x41\<close> and was not registered before. When the
  cursor is at \<open>0x41\<close> at that moment, it receives the smallest free code point from
  \<open>0x42\<close> on, which is \<open>0x42\<close> when \<open>0x42\<close> is free.
\<close>

theorem auto_after_explicit:
  assumes "name e = Some ''svg''" and "attrOf e ''unicode'' = Some ''0x41''"
    and "name a = Some ''svg''" and "attrOf a ''unicode'' = None"
    and "grows (processNode env e p r0) r2"
  shows "\<exists>u new. icons (processNode env a q r2) = icons r2 @ [new]
     \<and> unicode new = Some u \<and> autoUnicode new = Some True
     \<and> u \<noteq> 0x41 \<and> u |\<notin>| unicodes r2
     \<and> (startUnicode r2 = Num 0x41 \<longrightarrow>
          0x42 \<le> u \<and> (\<forall>k. 0x42 \<le> k \<and> k < u \<longrightarrow> k |\<in>| unicodes r2)
          \<and> (0x42 |\<notin>| unicodes r2 \<longrightarrow> u = 0x42))"
proof -
  from explicit_registers_0x41[OF assms(1,2), of env p r0] assms(5)
  have reg: "0x41 |\<in>| unicodes r2"
    by (auto simp add: grows_def)
  from auto_allocation[OF assms(3,4), of r2 env q] obtain u new where
    u: "getUniqueUnicode (startUnicode r2) (unicodes r2) = (u, finsert u (unicodes r2))"
    and new: "icons (processNode env a q r2) = icons r2 @ [new]" "unicode new = Some u"
      "autoUnicode new = Some True"
    by blast
  from getUniqueUnicode_eqD[OF u] have fresh: "u |\<notin>| unicodes r2" by simp
  with reg have ne: "u \<noteq> 0x41" by auto
  have cursor: "startUnicode r2 = Num 0x41 \<longrightarrow>
          0x42 \<le> u \<and> (\<forall>k. 0x42 \<le> k \<and> k < u \<longrightarrow> k |\<in>| unicodes r2)
          \<and> (0x42 |\<notin>| unicodes r2 \<longrightarrow> u = 0x42)"
  proof
    assume c: "startUnicode r2 = Num 0x41"
    from getUniqueUnicode_least[where candidate = "Num 0x41" and S = "unicodes r2", OF refl] u c
    have least: "0x41 \<le> u" "\<forall>k. 0x41 \<le> k \<and> k < u \<longrightarrow> k |\<in>| unicodes r2"
      by auto
    from least(1) ne have ge: "0x42 \<le> u" by simp
    from least(2) have below: "\<forall>k. 0x42 \<le> k \<and> k < u \<longrightarrow> k |\<in>| unicodes r2"
      by auto
    have "0x42 |\<notin>| unicodes r2 \<longrightarrow> u = 0x42"
    proof
      assume free: "0x42 |\<notin>| unicodes r2"
      show "u = 0x42"
      proof (rule ccontr)
        assume "u \<noteq> 0x42"
        with ge have "0x42 < u" by simp
        with below have "0x42 |\<in>| unicodes r2" by simp
        with free show False by simp
      qed
    qed
    with ge below show "0x42 \<le> u \<and> (\<forall>k. 0x42 \<le> k \<and> k < u \<longrightarrow> k |\<in>| unicodes r2)
          \<and> (0x42 |\<notin>| unicodes r2 \<longrightarrow> u = 0x42)"
      by simp
  qed
  from new fresh ne cursor show ?thesis by blast
qed

theorem auto_after_explicit_witness:
  "name explicitNode = Some ''svg'' \<and> attrOf explicitNode ''unicode'' = Some ''0x41''
   \<and> name svgNode = Some ''svg'' \<and> attrOf svgNode ''unicode'' = None
   \<and> startUnicode (processNode exampleEnv explicitNode ''icon.iconfont'' (newResult (Num 0x41)))
       = Num 0x41
   \<and> map unicode (icons (processNode exampleEnv svgNode ''icon.iconfont''
        (processNode exampleEnv explicitNode ''icon.iconfont'' (newResult (Num 0x41)))))
       = [Some 0x41, Some 0x42]
   \<and> (\<exists>u new. icons (processNode exampleEnv svgNode ''icon.iconfont''
          (processNode exampleEnv explicitNode ''icon.iconfont'' (newResult (Num 0x41))))
        = icons (processNode exampleEnv explicitNode ''icon.iconfont'' (newResult (Num 0x41)))
            @ [new]
        \<and> unicode new = Some u \<and> u \<noteq> 0x41)"
proof -
  have a: "name explicitNode = Some ''svg''" "attrOf explicitNode ''unicode'' = Some ''0x41''"
    "name svgNode = Some ''svg''" "attrOf svgNode ''unicode'' = None"
    by (simp_all add: explicitNode_def svgNode_def attrOf_def)
  from auto_after_explicit[OF a grows_refl, where env = exampleEnv and p = "''icon.iconfont''"
      and ?r0.0 = "newResult (Num 0x41)" and q = "''icon.iconfont''"]
  have "\<exists>u new. icons (processNode exampleEnv svgNode ''icon.iconfont''
          (processNode exampleEnv explicitNode ''icon.iconfont'' (newResult (Num 0x41))))
        = icons (processNode exampleEnv explicitNode ''icon.iconfont'' (newResult (Num 0x41)))
            @ [new]
        \<and> unicode new = Some u \<and> u \<noteq> 0x41"
    by blast
  with a run_explicit_then_auto show ?thesis by simp
qed

text \<open>
  C8. With an empty icon list the font container is generated with \<open>normalize\<close> set to
  true, whatever the configured option says: the options handed to the font stream are
  \<open>svgFontOptions [] options\<close>, whose \<open>normalize\<close> field is true.
\<close>

theorem empty_list_normalize:
  "normalize (svgFontOptions [] options) = Some True
   \<and> generateSVGFont env [] options =
       (case SVGIcons2SVGFontStream env (svgFontOptions [] options) [] of
          Inl e \<Rightarrow> Inl e
        | Inr content \<Rightarrow> Inr (content, svgFontOptions [] options))"
proof
  show "normalize (svgFontOptions [] options) = Some True"
    by (simp add: svgFontOptions_def Let_def)
  show "generateSVGFont env [] options =
       (case SVGIcons2SVGFontStream env (svgFontOptions [] options) [] of
          Inl e \<Rightarrow> Inl e
        | Inr content \<Rightarrow> Inr (content, svgFontOptions [] options))"
    by (simp add: generateSVGFont_def Let_def)
qed

text \<open>
  C9 (as stated). An absent boolean attribute is claimed to resolve to true. For
  \<open>fixedWidth\<close> no default is applied: with no such attribute the option handed to the
  font stream is unset.
\<close>

theorem fixedWidth_counterexample:
  "fixedWidth (svgFontOptions [warnIcon]
      (manifestOptions exampleEnv Map.empty ''icon.iconfont'' (newResult (Num 0xea01)) None))
     = None"
  by (simp add: svgFontOptions_def manifestOptions_def spread_def orElse_def noOptions_def
      parseBoolean_def Let_def)

text \<open>
  C9 (amended). \<^verbatim>\<open>parseBoolean\<close> maps a present attribute to false exactly when it is
  the literal \<^verbatim>\<open>"false"\<close> and leaves an absent one unset. With no caller override,
  \<open>centerHorizontally\<close> and, for a non-empty icon list, \<open>normalize\<close> resolve to that value
  or to true when the attribute is absent; \<open>fixedWidth\<close> resolves to that value and stays
  unset when the attribute is absent.
\<close>

theorem boolean_attributes:
  "parseBoolean None = None \<and> parseBoolean (Some s) = Some (s \<noteq> ''false'')
   \<and> fixedWidth (svgFontOptions iconList (manifestOptions env attrs path result None))
       = (case attrs ''fixedWidth'' of None \<Rightarrow> None | Some v \<Rightarrow> Some (v \<noteq> ''false''))
   \<and> centerHorizontally (svgFontOptions iconList (manifestOptions env attrs path result None))
       = Some (case attrs ''centerHorizontally'' of None \<Rightarrow> True | Some v \<Rightarrow> v \<noteq> ''false'')
   \<and> (iconList \<noteq> [] \<longrightarrow>
        normalize (svgFontOptions iconList (manifestOptions env attrs path result None))
          = Some (case attrs ''normalize'' of None \<Rightarrow> True | Some v \<Rightarrow> v \<noteq> ''false''))"
  by (simp add: svgFontOptions_def manifestOptions_def spread_def orElse_def noOptions_def
      parseBoolean_def Let_def split: option.splits)

theorem boolean_attributes_witness:
  "[warnIcon] \<noteq> []
   \<and> normalize (svgFontOptions [warnIcon]
         (manifestOptions exampleEnv [''normalize'' \<mapsto> ''false'', ''fixedWidth'' \<mapsto> ''no'']
            ''icon.iconfont'' (newResult (Num 0xea01)) None)) = Some False
   \<and> fixedWidth (svgFontOptions [warnIcon]
         (manifestOptions exampleEnv [''normalize'' \<mapsto> ''false'', ''fixedWidth'' \<mapsto> ''no'']
            ''icon.iconfont'' (newResult (Num 0xea01)) None)) = Some True
   \<and> centerHorizontally (svgFontOptions [warnIcon]
         (manifestOptions exampleEnv [''normalize'' \<mapsto> ''false'', ''fixedWidth'' \<mapsto> ''no'']
            ''icon.iconfont'' (newResult (Num 0xea01)) None)) = Some True"
  using boolean_attributes[of "''no''" "[warnIcon]" exampleEnv
      "[''normalize'' \<mapsto> ''false'', ''fixedWidth'' \<mapsto> ''no'']" "''icon.iconfont''"
      "newResult (Num 0xea01)"]
  by simp

text \<open>
  C10. Both entry points, called without a formats argument, request
  \<^verbatim>\<open>["eot", "ttf", "woff", "woff2", "css", "html"]\<close>. A default compile sets the font
  container, the four binary formats, the stylesheet and the preview, each generated
  once, and generates neither the sprite nor the script.
\<close>

theorem default_formats:
  "compileIconFont env content path None options
     = compileIconFont env content path (Some [Eot, Ttf, Woff, Woff2, Css, Html]) options
   \<and> compileIconFontFromSources env sources None options
     = compileIconFontFromSources env sources (Some [Eot, Ttf, Woff, Woff2, Css, Html]) options
   \<and> (compileIconFont env content path None options = Inr r \<longrightarrow>
        svgFont r \<noteq> None \<and> ttf r \<noteq> None \<and> eot r \<noteq> None \<and> woff r \<noteq> None \<and> woff2 r \<noteq> None
        \<and> css r \<noteq> None \<and> html r \<noteq> None \<and> svg r = None \<and> js r = None
        \<and> generated r = [SvgFont, Ttf, Eot, Woff, Woff2, Css, Html])
   \<and> (compileIconFontFromSources env sources None options = Inr r' \<longrightarrow>
        svgFont r' \<noteq> None \<and> ttf r' \<noteq> None \<and> eot r' \<noteq> None \<and> woff r' \<noteq> None \<and> woff2 r' \<noteq> None
        \<and> css r' \<noteq> None \<and> html r' \<noteq> None \<and> svg r' = None \<and> js r' = None
        \<and> generated r' = [SvgFont, Ttf, Eot, Woff, Woff2, Css, Html])"
proof -
  have a: "compileIconFont env content path None options
     = compileIconFont env content path (Some [Eot, Ttf, Woff, Woff2, Css, Html]) options"
    by (simp add: compileIconFont_def defaultFormats_def)
  have b: "compileIconFontFromSources env sources None options
     = compileIconFontFromSources env sources (Some [Eot, Ttf, Woff, Woff2, Css, Html]) options"
    by (simp add: compileIconFontFromSources_def defaultFormats_def)
  have c: "compileIconFont env content path None options = Inr r \<longrightarrow>
        svgFont r \<noteq> None \<and> ttf r \<noteq> None \<and> eot r \<noteq> None \<and> woff r \<noteq> None \<and> woff2 r \<noteq> None
        \<and> css r \<noteq> None \<and> html r \<noteq> None \<and> svg r = None \<and> js r = None
        \<and> generated r = [SvgFont, Ttf, Eot, Woff, Woff2, Css, Html]"
  proof
    assume run: "compileIconFont env content path None options = Inr r"
    have "\<And>a. has a r = activated defaultFormats a"
      using compileIconFont_outputs[OF run] by simp
    moreover have "generated r = filter (activated defaultFormats) generationOrder"
      using compileIconFont_outputs[OF run, of SvgFont] by simp
    ultimately show "svgFont r \<noteq> None \<and> ttf r \<noteq> None \<and> eot r \<noteq> None \<and> woff r \<noteq> None \<and> woff2 r \<noteq> None
        \<and> css r \<noteq> None \<and> html r \<noteq> None \<and> svg r = None \<and> js r = None
        \<and> generated r = [SvgFont, Ttf, Eot, Woff, Woff2, Css, Html]"
      by (rule default_outputs)
  qed
  have d: "compileIconFontFromSources env sources None options = Inr r' \<longrightarrow>
        svgFont r' \<noteq> None \<and> ttf r' \<noteq> None \<and> eot r' \<noteq> None \<and> woff r' \<noteq> None \<and> woff2 r' \<noteq> None
        \<and> css r' \<noteq> None \<and> html r' \<noteq> None \<and> svg r' = None \<and> js r' = None
        \<and> generated r' = [SvgFont, Ttf, Eot, Woff, Woff2, Css, Html]"
  proof
    assume run: "compileIconFontFromSources env sources None options = Inr r'"
    have "\<And>a. has a r' = activated defaultFormats a"
      using compileIconFontFromSources_outputs[OF run] by simp
    moreover have "generated r' = filter (activated defaultFormats) generationOrder"
      using compileIconFontFromSources_outputs[OF run, of SvgFont] by simp
    ultimately show "svgFont r' \<noteq> None \<and> ttf r' \<noteq> None \<and> eot r' \<noteq> None \<and> woff r' \<noteq> None \<and> woff2 r' \<noteq> None
        \<and> css r' \<noteq> None \<and> html r' \<noteq> None \<and> svg r' = None \<and> js r' = None
        \<and> generated r' = [SvgFont, Ttf, Eot, Woff, Woff2, Css, Html]"
      by (rule default_outputs)
  qed
  from a b c d show ?thesis by blast
qed

theorem default_formats_witness:
  "\<exists>r r'.
     compileIconFont exampleEnv manifestText ''icon.iconfont'' None None = Inr r
     \<and> svgFont r \<noteq> None \<and> ttf r \<noteq> None \<and> eot r \<noteq> None \<and> woff r \<noteq> None \<and> woff2 r \<noteq> None
     \<and> css r \<noteq> None \<and> html r \<noteq> None \<and> svg r = None \<and> js r = None
     \<and> generated r = [SvgFont, Ttf, Eot, Woff, Woff2, Css, Html]
     \<and> compileIconFontFromSources exampleEnv exampleSources None None = Inr r'
     \<and> svgFont r' \<noteq> None \<and> ttf r' \<noteq> None \<and> eot r' \<noteq> None \<and> woff r' \<noteq> None \<and> woff2 r' \<noteq> None
     \<and> css r' \<noteq> None \<and> html r' \<noteq> None \<and> svg r' = None \<and> js r' = None
     \<and> generated r' = [SvgFont, Ttf, Eot, Woff, Woff2, Css, Html]"
proof -
  from run_manifest_default obtain r where
    r: "compileIconFont exampleEnv manifestText ''icon.iconfont'' None None = Inr r"
    by blast
  from run_sources_default obtain r' where
    r': "compileIconFontFromSources exampleEnv exampleSources None None = Inr r'"
    by blast
  from r r'
    default_formats[where env = exampleEnv and content = manifestText
      and path = "''icon.iconfont''" and options = None and r = r
      and sources = exampleSources and r' = r']
  show ?thesis by blast
qed

end
